theory Spec2Isabelle
  imports Main
begin

section \<open>The configuration structure\<close>

text \<open>
  \<^verbatim>\<open>type Config struct\<close> (main.go, lines 21-29). The seven fields are Go strings,
  modelled as byte lists. The struct tags decide what \<^verbatim>\<open>encoding/json\<close> reads and
  writes: a tag \<^verbatim>\<open>json:"-"\<close> excludes the field, any other tag is the member name.
\<close>

record Config =
  AppHome :: string
  AwsProfile :: string
  Region :: string
  InstanceName :: string
  InstanceID :: string
  InstanceAZ :: string
  InstanceUser :: string

datatype field =
  FAppHome | FAwsProfile | FRegion | FInstanceName | FInstanceID | FInstanceAZ | FInstanceUser

definition Config_tags :: "(field \<times> string) list" where
  "Config_tags =
     [(FAppHome, ''-''),
      (FAwsProfile, ''-''),
      (FRegion, ''region''),
      (FInstanceName, ''-''),
      (FInstanceID, ''instance_id''),
      (FInstanceAZ, ''instance_az''),
      (FInstanceUser, ''-'')]"

fun get_field :: "field \<Rightarrow> Config \<Rightarrow> string" where
  "get_field FAppHome c = AppHome c"
| "get_field FAwsProfile c = AwsProfile c"
| "get_field FRegion c = Region c"
| "get_field FInstanceName c = InstanceName c"
| "get_field FInstanceID c = InstanceID c"
| "get_field FInstanceAZ c = InstanceAZ c"
| "get_field FInstanceUser c = InstanceUser c"

fun set_field :: "field \<Rightarrow> string \<Rightarrow> Config \<Rightarrow> Config" where
  "set_field FAppHome v c = c\<lparr>AppHome := v\<rparr>"
| "set_field FAwsProfile v c = c\<lparr>AwsProfile := v\<rparr>"
| "set_field FRegion v c = c\<lparr>Region := v\<rparr>"
| "set_field FInstanceName v c = c\<lparr>InstanceName := v\<rparr>"
| "set_field FInstanceID v c = c\<lparr>InstanceID := v\<rparr>"
| "set_field FInstanceAZ v c = c\<lparr>InstanceAZ := v\<rparr>"
| "set_field FInstanceUser v c = c\<lparr>InstanceUser := v\<rparr>"

section \<open>The JSON codec of the standard library\<close>

text \<open>
  \<^verbatim>\<open>json.Marshal\<close> and \<^verbatim>\<open>json.Unmarshal\<close> are library code, modelled by their
  documented contract on parsed documents. A byte string that is no JSON text is
  \<open>Raw\<close>; a byte string that is a JSON text is \<open>Encoded\<close> with the document it
  denotes.
\<close>

datatype json =
    JNull
  | JBool bool
  | JNumber string
  | JString string
  | JArray "json list"
  | JObject "(string \<times> json) list"

datatype bytes = Raw string | Encoded json

datatype json_error = SyntaxError | UnmarshalTypeError

text \<open>The fields \<^verbatim>\<open>encoding/json\<close> sees: those whose tag is not \<^verbatim>\<open>-\<close>.\<close>

definition json_fields :: "(field \<times> string) list" where
  "json_fields = filter (\<lambda>(f, t). t \<noteq> ''-'') Config_tags"

text \<open>
  Go strings are byte strings, and a JSON text is UTF-8. \<^verbatim>\<open>json.Marshal\<close> writes a
  string byte by byte: where \<^verbatim>\<open>utf8.DecodeRuneInString\<close> finds a well-formed sequence
  it writes the sequence, and where it finds none it writes U+FFFD (bytes EF BF BD) and
  goes on with the next byte. \<open>runeSize\<close> is the width of the well-formed sequence at
  the head of a string, and 0 when there is none: one byte below 80; two bytes from
  C2 to DF; three bytes from E0 to EF, without the overlong forms after E0 and the
  surrogates after ED; four bytes from F0 to F4, without the overlong forms after F0
  and the code points above U+10FFFF after F4.
\<close>

definition byte :: "char \<Rightarrow> nat" where
  "byte c = of_char c"

definition continuation :: "char \<Rightarrow> bool" where
  "continuation c = (128 \<le> byte c \<and> byte c \<le> 191)"

definition runeSize :: "string \<Rightarrow> nat" where
  "runeSize s =
     (case s of
        [] \<Rightarrow> 0
      | b0 # r \<Rightarrow>
          if byte b0 < 128 then 1
          else if 194 \<le> byte b0 \<and> byte b0 \<le> 223 then
            (case r of
               b1 # r1 \<Rightarrow> if continuation b1 then 2 else 0
             | _ \<Rightarrow> 0)
          else if 224 \<le> byte b0 \<and> byte b0 \<le> 239 then
            (case r of
               b1 # b2 # r2 \<Rightarrow>
                 if (if byte b0 = 224 then 160 else 128) \<le> byte b1 \<and>
                    byte b1 \<le> (if byte b0 = 237 then 159 else 191) \<and> continuation b2
                 then 3 else 0
             | _ \<Rightarrow> 0)
          else if 240 \<le> byte b0 \<and> byte b0 \<le> 244 then
            (case r of
               b1 # b2 # b3 # r3 \<Rightarrow>
                 if (if byte b0 = 240 then 144 else 128) \<le> byte b1 \<and>
                    byte b1 \<le> (if byte b0 = 244 then 143 else 191) \<and>
                    continuation b2 \<and> continuation b3
                 then 4 else 0
             | _ \<Rightarrow> 0)
          else 0)"

text \<open>\<^verbatim>\<open>utf8.ValidString\<close>.\<close>

function ValidString :: "string \<Rightarrow> bool" where
  "ValidString s =
     (if s = [] then True
      else if runeSize s = 0 then False
      else ValidString (drop (runeSize s) s))"
  by pat_completeness auto
termination
  by (relation "measure length") auto

declare ValidString.simps [simp del]

text \<open>The string that a JSON text written by \<^verbatim>\<open>json.Marshal\<close> holds for a Go string.\<close>

function coerceUTF8 :: "string \<Rightarrow> string" where
  "coerceUTF8 s =
     (if s = [] then []
      else if runeSize s = 0 then [CHR 0xEF, CHR 0xBF, CHR 0xBD] @ coerceUTF8 (tl s)
      else take (runeSize s) s @ coerceUTF8 (drop (runeSize s) s))"
  by pat_completeness auto
termination
  by (relation "measure length") auto

declare coerceUTF8.simps [simp del]

text \<open>\<^verbatim>\<open>json.Marshal(cfg)\<close>: one member per visible field, in declaration order.\<close>

definition Marshal :: "Config \<Rightarrow> bytes" where
  "Marshal c =
     Encoded (JObject (map (\<lambda>(f, t). (t, JString (coerceUTF8 (get_field f c)))) json_fields))"

text \<open>
  Member names are matched exactly first and then case-insensitively. The library
  folds ASCII letters to upper case and every other letter to the least member of
  its Unicode case orbit; the only non-ASCII letters whose orbit holds an ASCII
  letter are U+017F (bytes C5 BF, folds to S) and U+212A (bytes E2 84 AA, folds to K).
\<close>

definition toUpperASCII :: "char \<Rightarrow> char" where
  "toUpperASCII c =
     (case map_of (zip ''abcdefghijklmnopqrstuvwxyz'' ''ABCDEFGHIJKLMNOPQRSTUVWXYZ'') c of
        Some u \<Rightarrow> u
      | None \<Rightarrow> c)"

function foldName :: "string \<Rightarrow> string" where
  "foldName s =
     (if s = [] then []
      else if take 2 s = [CHR 0xC5, CHR 0xBF] then CHR ''S'' # foldName (drop 2 s)
      else if take 3 s = [CHR 0xE2, CHR 0x84, CHR 0xAA] then CHR ''K'' # foldName (drop 3 s)
      else toUpperASCII (hd s) # foldName (tl s))"
  by pat_completeness auto
termination
  by (relation "measure length") auto

declare foldName.simps [simp del]

definition find_field :: "string \<Rightarrow> field option" where
  "find_field key =
     (case find (\<lambda>(f, t). t = key) json_fields of
        Some (f, t) \<Rightarrow> Some f
      | None \<Rightarrow>
          (case find (\<lambda>(f, t). foldName t = foldName key) json_fields of
             Some (f, t) \<Rightarrow> Some f
           | None \<Rightarrow> None))"

text \<open>
  Decoding a member into a string field: a JSON string is stored, \<^verbatim>\<open>null\<close> leaves
  the field alone, and any other value is skipped with an \<^verbatim>\<open>UnmarshalTypeError\<close>,
  of which the earliest is kept while decoding goes on. Unknown members are ignored.
\<close>

definition saveError :: "json_error option \<Rightarrow> json_error \<Rightarrow> json_error option" where
  "saveError saved e = (case saved of None \<Rightarrow> Some e | Some e0 \<Rightarrow> Some e0)"

fun store_members :: "(string \<times> json) list \<Rightarrow> Config \<times> json_error option \<Rightarrow> Config \<times> json_error option" where
  "store_members [] s = s"
| "store_members ((k, v) # ms) (c, saved) =
     store_members ms
       (case find_field k of
          None \<Rightarrow> (c, saved)
        | Some f \<Rightarrow>
            (case v of
               JString s \<Rightarrow> (set_field f s c, saved)
             | JNull \<Rightarrow> (c, saved)
             | _ \<Rightarrow> (c, saveError saved UnmarshalTypeError)))"

text \<open>
  \<^verbatim>\<open>json.Unmarshal(data, cfg)\<close>. The input is checked for well-formedness before
  anything is stored, so a syntax error leaves the structure untouched. The structure
  is written through the pointer, so the caller sees what was stored even when an
  error is returned: the result is the structure together with the error.
\<close>

fun Unmarshal :: "bytes \<Rightarrow> Config \<Rightarrow> Config \<times> json_error option" where
  "Unmarshal (Raw s) c = (c, Some SyntaxError)"
| "Unmarshal (Encoded JNull) c = (c, None)"
| "Unmarshal (Encoded (JObject ms)) c = store_members ms (c, None)"
| "Unmarshal (Encoded v) c = (c, Some UnmarshalTypeError)"

section \<open>Time and the file system\<close>

text \<open>
  Instants are nanoseconds on the wall clock; a \<^verbatim>\<open>time.Duration\<close> is a signed
  64-bit count of nanoseconds. \<^verbatim>\<open>time.Since(t)\<close> is the clock minus \<open>t\<close>, saturated
  to the range of a duration.
\<close>

definition Second :: int where
  "Second = 1000000000"

definition Hour :: int where
  "Hour = 3600 * Second"

definition maxDuration :: int where
  "maxDuration = 2 ^ 63 - 1"

definition minDuration :: int where
  "minDuration = - (2 ^ 63)"

definition Since :: "int \<Rightarrow> int \<Rightarrow> int" where
  "Since now t =
     (let d = now - t
      in if d > maxDuration then maxDuration else if d < minDuration then minDuration else d)"

text \<open>
  The file system maps a path, as the program spells it, to a file or a directory,
  with its bytes, its modification time and the permission bits of the calling user.
  The directory of a path is what precedes its last separator; the empty path stands
  for the root and for the working directory, which always exist. Components
  \<^verbatim>\<open>.\<close> and \<^verbatim>\<open>..\<close>, repeated separators and links are not resolved. A file can be
  created only where its directory exists. Reading and writing the bytes of a file are
  subject to its permission bits; the permission bits of a directory are not modelled
  (the program works in a directory that it owns and that \<^verbatim>\<open>main\<close> creates at line
  46), and neither is the time stamp that a directory takes when an entry is added or
  removed, which the program never reads.
\<close>

record File =
  content :: bytes
  modTime :: int
  readable :: bool
  writable :: bool
  isDir :: bool

type_synonym filesystem = "string \<rightharpoonup> File"

definition parentDir :: "string \<Rightarrow> string" where
  "parentDir path = rev (tl (dropWhile (\<lambda>c. c \<noteq> CHR ''/'') (rev path)))"

definition hasDir :: "filesystem \<Rightarrow> string \<Rightarrow> bool" where
  "hasDir fs path =
     (parentDir path = [] \<or>
      (case fs (parentDir path) of
         None \<Rightarrow> False
       | Some d \<Rightarrow> isDir d))"

text \<open>\<^verbatim>\<open>os.Stat\<close>: \<open>None\<close> is the error case.\<close>

definition Stat :: "filesystem \<Rightarrow> string \<Rightarrow> File option" where
  "Stat fs path = fs path"

text \<open>\<^verbatim>\<open>os.ReadFile\<close>: \<open>None\<close> is the error case.\<close>

definition ReadFile :: "filesystem \<Rightarrow> string \<Rightarrow> bytes option" where
  "ReadFile fs path =
     (case fs path of
        None \<Rightarrow> None
      | Some f \<Rightarrow> if readable f \<and> \<not> isDir f then Some (content f) else None)"

text \<open>
  \<^verbatim>\<open>os.WriteFile(path, data, 0660)\<close> at clock \<open>now\<close>: creates the file readable and
  writable, if its directory exists, or truncates an existing file, whose permissions
  stay. \<open>None\<close> is the error case.
\<close>

definition WriteFile :: "int \<Rightarrow> filesystem \<Rightarrow> string \<Rightarrow> bytes \<Rightarrow> filesystem option" where
  "WriteFile now fs path data =
     (case fs path of
        None \<Rightarrow>
          if hasDir fs path
          then Some (fs(path \<mapsto> \<lparr>content = data, modTime = now, readable = True, writable = True,
                                  isDir = False\<rparr>))
          else None
      | Some f \<Rightarrow>
          if writable f \<and> \<not> isDir f then Some (fs(path \<mapsto> f\<lparr>content := data, modTime := now\<rparr>))
          else None)"

text \<open>
  \<^verbatim>\<open>os.Remove\<close> removes a file, and fails on a directory that holds entries; the
  program discards its error at every call. Every directory is taken to hold entries:
  the one that the program creates receives the log file at line 58, and the program
  creates no other.
\<close>

definition Remove :: "filesystem \<Rightarrow> string \<Rightarrow> filesystem" where
  "Remove fs path =
     (case fs path of
        None \<Rightarrow> fs
      | Some f \<Rightarrow> if isDir f then fs else fs(path := None))"

text \<open>
  \<^verbatim>\<open>os.OpenFile(path, os.O_EXCL|os.O_CREATE, 0660)\<close> at clock \<open>now\<close>: the atomic
  create-if-absent. \<open>None\<close> is the error case: the path exists, or its directory does
  not.
\<close>

definition OpenFile_EXCL_CREATE :: "int \<Rightarrow> filesystem \<Rightarrow> string \<Rightarrow> filesystem option" where
  "OpenFile_EXCL_CREATE now fs path =
     (case fs path of
        None \<Rightarrow>
          if hasDir fs path
          then Some (fs(path \<mapsto> \<lparr>content = Raw [], modTime = now, readable = True, writable = True,
                                  isDir = False\<rparr>))
          else None
      | Some f \<Rightarrow> None)"

text \<open>
  \<^verbatim>\<open>os.MkdirAll(path, 0750)\<close> at clock \<open>now\<close>: nothing to do when the path is a
  directory, an error when it is a file, and otherwise the directory is created after
  its own directory. \<open>None\<close> is the error case.
\<close>

function MkdirAll :: "int \<Rightarrow> filesystem \<Rightarrow> string \<Rightarrow> filesystem option" where
  "MkdirAll now fs path =
     (if path = [] then Some fs
      else
        (case fs path of
           Some f \<Rightarrow> if isDir f then Some fs else None
         | None \<Rightarrow>
             (case MkdirAll now fs (parentDir path) of
                None \<Rightarrow> None
              | Some fs' \<Rightarrow>
                  Some (fs'(path \<mapsto> \<lparr>content = Raw [], modTime = now, readable = True,
                                     writable = True, isDir = True\<rparr>)))))"
  by pat_completeness auto
termination
proof (relation "measure (\<lambda>(now, fs, path). length path)")
  show "wf (measure (\<lambda>(now, fs, path). length path))" by simp
next
  fix now :: int and fs :: filesystem and path :: string
  assume "path \<noteq> []"
  then have 0: "0 < length path" by simp
  have 1: "length (dropWhile (\<lambda>c. c \<noteq> CHR ''/'') (rev path)) \<le> length path"
    using length_dropWhile_le[of "\<lambda>c. c \<noteq> CHR ''/''" "rev path"] by simp
  have "length (parentDir path) < length path"
    unfolding parentDir_def length_rev length_tl using 0 1 by linarith
  then show "((now, fs, parentDir path), (now, fs, path)) \<in> measure (\<lambda>(now, fs, path). length path)"
    by simp
qed

declare MkdirAll.simps [simp del]

section \<open>The identity cache\<close>

datatype error =
    CacheDoesNotExist
  | CacheExpired
  | ReadCacheFailed
  | UnmarshalFailed json_error
  | WriteCacheFailed
  | ServiceError string
  | InstanceNotFound
  | ReadKeyFailed
  | SendKeyFailed string
  | StartSessionFailed string
  | PluginNotFound

text \<open>The path both cache functions build with \<^verbatim>\<open>fmt.Sprintf("%s/%s-%s-%s.json", ...)\<close>.\<close>

definition cacheFile :: "Config \<Rightarrow> string" where
  "cacheFile c =
     AppHome c @ ''/'' @ AwsProfile c @ ''-'' @ InstanceName c @ ''-'' @ InstanceUser c @ ''.json''"

text \<open>
  \<^verbatim>\<open>saveCache\<close> (lines 150-169) at clock \<open>now\<close>. \<^verbatim>\<open>json.Marshal\<close> cannot fail on
  a structure of strings, so its error branch is dead.
\<close>

definition saveCache :: "int \<Rightarrow> filesystem \<Rightarrow> Config \<Rightarrow> filesystem \<times> error option" where
  "saveCache now fs c =
     (case WriteFile now fs (cacheFile c) (Marshal c) of
        None \<Rightarrow> (fs, Some WriteCacheFailed)
      | Some fs' \<Rightarrow> (fs', None))"

text \<open>
  \<^verbatim>\<open>loadCache\<close> (lines 171-203) at clock \<open>now\<close>. It receives a pointer to the
  configuration and returns an error value: the model returns the configuration as the
  caller finds it afterwards, and the error.
\<close>

definition loadCache :: "int \<Rightarrow> filesystem \<Rightarrow> Config \<Rightarrow> Config \<times> error option" where
  "loadCache now fs c =
     (case Stat fs (cacheFile c) of
        None \<Rightarrow> (c, Some CacheDoesNotExist)
      | Some info \<Rightarrow>
          if Since now (modTime info) > 24 * Hour then (c, Some CacheExpired)
          else
            (case ReadFile fs (cacheFile c) of
               None \<Rightarrow> (c, Some ReadCacheFailed)
             | Some data \<Rightarrow>
                 (case Unmarshal data c of
                    (c', Some e) \<Rightarrow> (c', Some (UnmarshalFailed e))
                  | (c', None) \<Rightarrow> (c', None))))"

section \<open>The process and its environment\<close>

text \<open>
  What a run can observe of the outside: its arguments and environment variables,
  whether the start-up steps fail, and the three cloud services, each an oracle from
  the request to the reply together with the time the call blocks. Pointers of the
  SDK's reply types are options, \<open>None\<close> being \<^verbatim>\<open>nil\<close>.
\<close>

record ec2_placement =
  AvailabilityZone :: "string option"

record ec2_instance =
  InstanceId :: "string option"
  Placement :: "ec2_placement option"

record session_output =
  SessionId :: "string option"
  StreamUrl :: "string option"
  TokenValue :: "string option"

record env =
  Args :: "string list"
  HOME :: string
  PATH :: "string list"
  StartTime :: int
  MkdirAllFails :: bool
  OpenLogFails :: bool
  LoadConfigFails :: bool
  DescribeInstances :: "(string \<times> string list) list \<Rightarrow> string + ec2_instance list list"
  DescribeInstancesTime :: nat
  SendSSHPublicKey :: "string \<Rightarrow> string \<Rightarrow> bytes \<Rightarrow> string \<Rightarrow> string option"
  SendSSHPublicKeyTime :: nat
  StartSession :: "string \<Rightarrow> string \<Rightarrow> (string \<times> string list) list \<Rightarrow> string + session_output"
  StartSessionTime :: nat
  PluginFails :: "string \<Rightarrow> bytes list \<Rightarrow> bool"
  PluginTime :: nat

text \<open>
  What a run does to the outside, in order: log records, requests to the services,
  the start of the helper, and the creation and removal of files. \<open>Call\<close> marks the
  entry of a function of main.go.
\<close>

datatype level = LevelDebug | LevelInfo | LevelWarn | LevelError

datatype origin = Inline | Deferred | Background

datatype event =
    Slog level string
  | Call string
  | DescribeInstancesReq "(string \<times> string list) list"
  | SendSSHPublicKeyReq string string bytes string
  | StartSessionReq string string "(string \<times> string list) list"
  | Run string "bytes list"
  | RunNotFound string
  | Created string
  | Removed origin string

text \<open>
  The state of the process: the global \<^verbatim>\<open>cfg\<close>, the file system, the clock, the
  goroutine started at line 127 (the instant it wakes and the path it removes), the
  functions deferred in \<^verbatim>\<open>main\<close> (the paths they remove, latest first), and the
  events so far.
\<close>

record proc =
  cfg :: Config
  fs :: filesystem
  clock :: int
  timer :: "(int \<times> string) option"
  deferred :: "string list"
  trace :: "event list"

definition emit :: "event \<Rightarrow> proc \<Rightarrow> proc" where
  "emit e p = p\<lparr>trace := trace p @ [e]\<rparr>"

text \<open>
  The foreground blocks for \<open>d\<close> nanoseconds. A goroutine whose sleep ends in that
  time runs: it removes the lock file (lines 128-130).
\<close>

definition block :: "nat \<Rightarrow> proc \<Rightarrow> proc" where
  "block d p =
     (let p1 = p\<lparr>clock := clock p + int d\<rparr>
      in case timer p1 of
           None \<Rightarrow> p1
         | Some (due, path) \<Rightarrow>
             if due \<le> clock p1
             then emit (Removed Background path) (p1\<lparr>fs := Remove (fs p1) path, timer := None\<rparr>)
             else p1)"

datatype status = Returned | Exited nat | Panicked

section \<open>Instance resolution\<close>

datatype 'a result = Ok 'a | Failed error | Panic

text \<open>
  The loop of lines 239-246 returns at the first instance of the first reservation
  that has one. Dereferencing a \<^verbatim>\<open>nil\<close> pointer panics, and so does slicing the empty
  string at line 243.
\<close>

fun firstInstance :: "ec2_instance list list \<Rightarrow> ec2_instance option" where
  "firstInstance [] = None"
| "firstInstance ([] # rs) = firstInstance rs"
| "firstInstance ((i # is) # rs) = Some i"

definition assignInstance :: "ec2_instance \<Rightarrow> Config \<Rightarrow> Config result" where
  "assignInstance i c =
     (case InstanceId i of
        None \<Rightarrow> Panic
      | Some ident \<Rightarrow>
          (case Placement i of
             None \<Rightarrow> Panic
           | Some pl \<Rightarrow>
               (case AvailabilityZone pl of
                  None \<Rightarrow> Panic
                | Some az \<Rightarrow>
                    if length az = 0 then Panic
                    else Ok (c\<lparr>InstanceID := ident, InstanceAZ := az,
                              Region := take (length az - 1) az\<rparr>))))"

text \<open>\<^verbatim>\<open>getInstanceDetails\<close> (lines 221-248).\<close>

definition getInstanceDetails :: "env \<Rightarrow> proc \<Rightarrow> unit result \<times> proc" where
  "getInstanceDetails e p =
     (let p0 = emit (Call ''getInstanceDetails'') p;
          filters = [(''tag:Name'', [InstanceName (cfg p0)]),
                     (''instance-state-name'', [''running''])];
          p1 = block (DescribeInstancesTime e) (emit (DescribeInstancesReq filters) p0)
      in case DescribeInstances e filters of
           Inl err \<Rightarrow> (Failed (ServiceError err), p1)
         | Inr reservations \<Rightarrow>
             (case firstInstance reservations of
                None \<Rightarrow> (Failed InstanceNotFound, p1)
              | Some i \<Rightarrow>
                  (case assignInstance i (cfg p1) of
                     Ok c \<Rightarrow> (Ok (), p1\<lparr>cfg := c\<rparr>)
                   | Failed err \<Rightarrow> (Failed err, p1)
                   | Panic \<Rightarrow> (Panic, p1))))"

section \<open>Key distribution\<close>

text \<open>\<^verbatim>\<open>sendSSHPublicKey\<close> (lines 250-271).\<close>

definition sendSSHPublicKey :: "env \<Rightarrow> proc \<Rightarrow> error option \<times> proc" where
  "sendSSHPublicKey e p =
     (let p0 = emit (Call ''sendSSHPublicKey'') p;
          publicKeyPath = HOME e @ ''/.ssh/id_rsa.pub''
      in case ReadFile (fs p0) publicKeyPath of
           None \<Rightarrow> (Some ReadKeyFailed, p0)
         | Some publicKey \<Rightarrow>
             (let c = cfg p0;
                  p1 = block (SendSSHPublicKeyTime e)
                         (emit (SendSSHPublicKeyReq (InstanceID c) (InstanceUser c) publicKey
                                  (InstanceAZ c)) p0)
              in case SendSSHPublicKey e (InstanceID c) (InstanceUser c) publicKey (InstanceAZ c) of
                   Some err \<Rightarrow> (Some (SendKeyFailed err), p1)
                 | None \<Rightarrow> (None, p1)))"

section \<open>Session bootstrap\<close>

text \<open>The candidate list of lines 330-335; the loop of lines 336-341 takes the first
  candidate that \<^verbatim>\<open>os.Stat\<close> accepts and leaves the empty string when there is none.\<close>

definition commonPaths :: "string list" where
  "commonPaths =
     [''session-manager-plugin'',
      ''/usr/local/bin/session-manager-plugin'',
      ''/usr/bin/session-manager-plugin'',
      ''/opt/homebrew/bin/session-manager-plugin'']"

definition findPlugin :: "filesystem \<Rightarrow> string" where
  "findPlugin fsys =
     (case find (\<lambda>path. Stat fsys path \<noteq> None) commonPaths of
        Some path \<Rightarrow> path
      | None \<Rightarrow> [])"

text \<open>
  \<^verbatim>\<open>exec.Command\<close> resolves a name without a path separator through the directories
  of \<^verbatim>\<open>$PATH\<close> and takes any other name as it is; what it finds is a file, not a
  directory. \<^verbatim>\<open>os.Stat\<close> does not search: it takes every name as a path, a relative
  one from the working directory.
\<close>

definition isFile :: "filesystem \<Rightarrow> string \<Rightarrow> bool" where
  "isFile fsys path = (case fsys path of None \<Rightarrow> False | Some f \<Rightarrow> \<not> isDir f)"

definition LookPath :: "env \<Rightarrow> filesystem \<Rightarrow> string \<Rightarrow> string option" where
  "LookPath e fsys name =
     (if CHR ''/'' \<in> set name then (if isFile fsys name then Some name else None)
      else
        (case find (\<lambda>dir. isFile fsys (dir @ ''/'' @ name)) (PATH e) of
           Some dir \<Rightarrow> Some (dir @ ''/'' @ name)
         | None \<Rightarrow> None))"

text \<open>\<^verbatim>\<open>aws.ToString\<close>: the empty string for \<^verbatim>\<open>nil\<close>.\<close>

definition ToString :: "string option \<Rightarrow> string" where
  "ToString s = (case s of None \<Rightarrow> [] | Some v \<Rightarrow> v)"

text \<open>
  \<^verbatim>\<open>startSSMSessionWithPlugin\<close> (lines 285-369). Marshalling the two structures of
  strings cannot fail, so those error branches are dead.
\<close>

definition startSSMSessionWithPlugin :: "env \<Rightarrow> proc \<Rightarrow> error option \<times> proc" where
  "startSSMSessionWithPlugin e p =
     (let p0 = emit (Call ''startSSMSessionWithPlugin'') p;
          c = cfg p0;
          target = InstanceID c;
          documentName = ''AWS-StartSSHSession'';
          parameters = [(''portNumber'', [''22''])];
          p1 = block (StartSessionTime e) (emit (StartSessionReq target documentName parameters) p0)
      in case StartSession e target documentName parameters of
           Inl err \<Rightarrow> (Some (StartSessionFailed err), p1)
         | Inr out \<Rightarrow>
             (let startSessionResponse =
                    Encoded (JObject [(''SessionId'', JString (coerceUTF8 (ToString (SessionId out)))),
                                      (''StreamUrl'', JString (coerceUTF8 (ToString (StreamUrl out)))),
                                      (''TokenValue'', JString (coerceUTF8 (ToString (TokenValue out))))]);
                  startSessionRequest =
                    Encoded (JObject [(''Target'', JString (coerceUTF8 target)),
                                      (''DocumentName'', JString (coerceUTF8 documentName)),
                                      (''Parameters'',
                                       JObject (map (\<lambda>(k, vs). (k, JArray (map (\<lambda>v. JString (coerceUTF8 v)) vs)))
                                                  parameters))]);
                  endpoint = ''https://ssm.'' @ Region c @ ''.amazonaws.com'';
                  pluginPath = findPlugin (fs p1)
              in if pluginPath = [] then (Some PluginNotFound, p1)
                 else
                   (let argv = [startSessionResponse, Raw (Region c), Raw ''StartSession'',
                                Raw (AwsProfile c), startSessionRequest, Raw endpoint];
                        p2 = emit (Slog LevelInfo ''session-manager-plugin start'') p1;
                        p3 = (case LookPath e (fs p2) pluginPath of
                                None \<Rightarrow>
                                  emit (Slog LevelError ''session-manager-plugin error: %v'')
                                    (emit (RunNotFound pluginPath) p2)
                              | Some exe \<Rightarrow>
                                  (let p' = block (PluginTime e) (emit (Run exe argv) p2)
                                   in if PluginFails e exe argv
                                      then emit (Slog LevelError ''session-manager-plugin error: %v'') p'
                                      else p'))
                    in (None, emit (Slog LevelInfo ''session-manager-plugin end'') p3))))"

section \<open>The main function\<close>

text \<open>
  \<^verbatim>\<open>main\<close> (lines 34-148) is modelled in five parts, each continuing with the next.
  Returning from \<^verbatim>\<open>main\<close> runs the deferred functions, latest first, and then the
  process ends, and with it a goroutine that still sleeps. A panic runs them too.
  \<^verbatim>\<open>os.Exit\<close> ends the process without running them.
\<close>

definition lockFileName :: "Config \<Rightarrow> string" where
  "lockFileName c =
     AppHome c @ ''/'' @ AwsProfile c @ ''-'' @ InstanceName c @ ''-'' @ InstanceUser c @ ''.lock''"

definition exit_process :: "nat \<Rightarrow> proc \<Rightarrow> status \<times> proc" where
  "exit_process code p = (Exited code, p\<lparr>timer := None, deferred := []\<rparr>)"

definition main_return :: "proc \<Rightarrow> status \<times> proc" where
  "main_return p =
     (Returned,
      (foldl (\<lambda>q path. emit (Removed Deferred path) (q\<lparr>fs := Remove (fs q) path\<rparr>)) p (deferred p))
        \<lparr>timer := None, deferred := []\<rparr>)"

text \<open>Lines 141-148.\<close>

definition main_session :: "env \<Rightarrow> proc \<Rightarrow> status \<times> proc" where
  "main_session e p =
     (let p1 = emit (Slog LevelInfo ''starting SSM session'') p
      in case startSSMSessionWithPlugin e p1 of
           (Some err, p2) \<Rightarrow>
             main_return (emit (Slog LevelInfo ''session completed'')
                            (emit (Slog LevelError ''Failed to start SSM session'') p2))
         | (None, p2) \<Rightarrow> main_return (emit (Slog LevelInfo ''session completed'') p2))"

text \<open>Lines 113-115: the lock file exists and is older than 50 seconds.\<close>

definition isStale :: "int \<Rightarrow> filesystem \<Rightarrow> string \<Rightarrow> bool" where
  "isStale now fsys path =
     (case Stat fsys path of
        None \<Rightarrow> False
      | Some s \<Rightarrow> Since now (modTime s) > 50 * Second)"

text \<open>Lines 133-139: the key push, whose failure is logged, and then the session.\<close>

definition main_push :: "env \<Rightarrow> proc \<Rightarrow> status \<times> proc" where
  "main_push e p =
     (let p4 = emit (Slog LevelInfo ''sending SSH public key'') p
      in case sendSSHPublicKey e p4 of
           (Some err, p5) \<Rightarrow>
             main_session e
               (emit (Slog LevelInfo ''SSH public key sent'')
                  (emit (Slog LevelError ''failed to send SSH public key'') p5))
         | (None, p5) \<Rightarrow> main_session e (emit (Slog LevelInfo ''SSH public key sent'') p5))"

text \<open>
  Lines 102-119, the acquisition: the stale lock file is removed and the lock file is
  created exclusively. The result says whether \<^verbatim>\<open>os.OpenFile\<close> returned no error.
\<close>

definition main_acquire :: "proc \<Rightarrow> bool \<times> proc" where
  "main_acquire p =
     (let lock = lockFileName (cfg p);
          p1 = emit (Slog LevelInfo (''checking lock file '' @ lock)) p;
          p2 = (if isStale (clock p1) (fs p1) lock
                then emit (Removed Inline lock) (p1\<lparr>fs := Remove (fs p1) lock\<rparr>)
                else p1)
      in case OpenFile_EXCL_CREATE (clock p2) (fs p2) lock of
           Some fs' \<Rightarrow> (True, emit (Created lock) (p2\<lparr>fs := fs'\<rparr>))
         | None \<Rightarrow> (False, p2))"

text \<open>
  Lines 119-148: on success the release is deferred (lines 121-124), the goroutine is
  started that releases after 50 seconds (lines 127-131), and the key is pushed; the
  session follows in either case.
\<close>

definition main_lock :: "env \<Rightarrow> proc \<Rightarrow> status \<times> proc" where
  "main_lock e p =
     (case main_acquire p of
        (True, p3) \<Rightarrow>
          main_push e
            (p3\<lparr>deferred := lockFileName (cfg p3) # deferred p3,
                timer := Some (clock p3 + 50 * Second, lockFileName (cfg p3))\<rparr>)
      | (False, p2) \<Rightarrow> main_session e p2)"

text \<open>Lines 84-100. The error that \<^verbatim>\<open>loadCache\<close> and \<^verbatim>\<open>saveCache\<close> return is dropped.\<close>

definition main_cache :: "env \<Rightarrow> proc \<Rightarrow> status \<times> proc" where
  "main_cache e p =
     (let p0 = emit (Call ''loadCache'') p;
          p1 = emit (Slog LevelInfo ''loaded cache: '')
                 (p0\<lparr>cfg := fst (loadCache (clock p0) (fs p0) (cfg p0))\<rparr>)
      in if InstanceID (cfg p1) = []
         then
           (let p2 = emit (Slog LevelInfo ''instance details not found in cache, fetching from AWS'') p1
            in case getInstanceDetails e p2 of
                 (Failed err, p3) \<Rightarrow>
                   exit_process 1 (emit (Slog LevelError ''Failed to get instance details'') p3)
               | (Panic, p3) \<Rightarrow> (Panicked, snd (main_return p3))
               | (Ok u, p3) \<Rightarrow>
                   (let p4 = emit (Call ''saveCache'')
                               (emit (Slog LevelInfo ''saving instance details to cache'') p3)
                    in main_lock e (p4\<lparr>fs := fst (saveCache (clock p4) (fs p4) (cfg p4))\<rparr>)))
         else main_lock e p1)"

text \<open>
  Lines 34-83. \<open>MkdirAllFails\<close> and \<open>OpenLogFails\<close> stand for the failures that the
  file system of the model does not produce (permissions, a full disk). The rotation
  of the log file and the signal handler are left out: the log file is no cache or
  lock file, and a signal ends the process wherever it arrives.
\<close>

definition main :: "env \<Rightarrow> filesystem \<Rightarrow> status \<times> proc" where
  "main e fs0 =
     (let zero = \<lparr>AppHome = [], AwsProfile = [], Region = [], InstanceName = [],
                  InstanceID = [], InstanceAZ = [], InstanceUser = []\<rparr>;
          p = \<lparr>cfg = zero, fs = fs0, clock = StartTime e, timer = None, deferred = [], trace = []\<rparr>
      in if length (Args e) \<noteq> 4 then exit_process 1 p
         else
           (let p0 = p\<lparr>cfg := zero\<lparr>AwsProfile := Args e ! 1, InstanceName := Args e ! 2,
                                    InstanceUser := Args e ! 3,
                                    AppHome := HOME e @ ''/.ssm-ssh-connect''\<rparr>\<rparr>
            in if MkdirAllFails e then exit_process 1 p0
               else
                 (case MkdirAll (clock p0) (fs p0) (AppHome (cfg p0)) of
                    None \<Rightarrow> exit_process 1 p0
                  | Some fs1 \<Rightarrow>
                      (let p1 = p0\<lparr>fs := fs1\<rparr>
                       in if OpenLogFails e then exit_process 1 p1
                          else main_cache e
                                 (if LoadConfigFails e
                                  then emit (Slog LevelError ''unable to load AWS config'') p1
                                  else p1)))))"

section \<open>Observations on a run\<close>

text \<open>The events a part of the run adds to those of the state it starts from.\<close>

definition newEvents :: "proc \<Rightarrow> 'a \<times> proc \<Rightarrow> event list" where
  "newEvents p r = drop (length (trace p)) (trace (snd r))"

definition eventsBefore :: "event \<Rightarrow> event list \<Rightarrow> event list" where
  "eventsBefore ev tr = takeWhile (\<lambda>x. x \<noteq> ev) tr"

fun isKeyPush :: "event \<Rightarrow> bool" where
  "isKeyPush (Call name) = (name = ''sendSSHPublicKey'')"
| "isKeyPush (SendSSHPublicKeyReq i u k z) = True"
| "isKeyPush ev = False"

fun isLaunch :: "event \<Rightarrow> bool" where
  "isLaunch (Run exe argv) = True"
| "isLaunch (RunNotFound name) = True"
| "isLaunch ev = False"

fun isRequest :: "event \<Rightarrow> bool" where
  "isRequest (DescribeInstancesReq f) = True"
| "isRequest (SendSSHPublicKeyReq i u k z) = True"
| "isRequest (StartSessionReq t d ps) = True"
| "isRequest ev = False"

text \<open>Kinds of events.\<close>

fun isBackground :: "event \<Rightarrow> bool" where
  "isBackground (Removed Background path) = True"
| "isBackground ev = False"

fun isDeferred :: "event \<Rightarrow> bool" where
  "isDeferred (Removed Deferred path) = True"
| "isDeferred ev = False"

fun isAcquire :: "event \<Rightarrow> bool" where
  "isAcquire (Created path) = True"
| "isAcquire (Removed Inline path) = True"
| "isAcquire ev = False"

fun isBootstrap :: "event \<Rightarrow> bool" where
  "isBootstrap (Call name) = (name = ''startSSMSessionWithPlugin'')"
| "isBootstrap (StartSessionReq t d ps) = True"
| "isBootstrap ev = False"

fun sessionEvent :: "event \<Rightarrow> bool" where
  "sessionEvent (Slog l m) = True"
| "sessionEvent (Call name) = (name = ''startSSMSessionWithPlugin'')"
| "sessionEvent (StartSessionReq t d ps) = True"
| "sessionEvent (Run exe argv) = True"
| "sessionEvent (RunNotFound name) = True"
| "sessionEvent ev = False"

fun helperEvent :: "event \<Rightarrow> bool" where
  "helperEvent (Slog l m) = True"
| "helperEvent (Run exe argv) = True"
| "helperEvent (RunNotFound name) = True"
| "helperEvent ev = False"

fun pushEvent :: "event \<Rightarrow> bool" where
  "pushEvent (Slog l m) = True"
| "pushEvent (Call name) = (name = ''sendSSHPublicKey'')"
| "pushEvent (SendSSHPublicKeyReq i u k z) = True"
| "pushEvent ev = False"

definition pushOrSession :: "event \<Rightarrow> bool" where
  "pushOrSession ev = (pushEvent ev \<or> sessionEvent ev)"

text \<open>
  The goroutine, seen from the foreground: a timer that is set has not come due
  unnoticed; \<open>settle\<close> is what a clock reading makes of the timer and of the background
  events of a state; \<open>follows\<close> relates a state to a later one that has noticed every
  timer due by its clock; \<open>steps\<close> are the states reached by emitting events of one kind
  and blocking.
\<close>

definition armed :: "proc \<Rightarrow> bool" where
  "armed q = (case timer q of None \<Rightarrow> True | Some (due, path) \<Rightarrow> clock q < due)"

definition settle :: "int \<Rightarrow> proc \<Rightarrow> (int \<times> string) option \<times> event list" where
  "settle c q =
     (case timer q of
        None \<Rightarrow> (None, filter isBackground (trace q))
      | Some (due, path) \<Rightarrow>
          if due \<le> c then (None, filter isBackground (trace q) @ [Removed Background path])
          else (Some (due, path), filter isBackground (trace q)))"

definition follows :: "proc \<Rightarrow> proc \<Rightarrow> bool" where
  "follows q q' =
     (clock q \<le> clock q' \<and> armed q' \<and>
      (timer q', filter isBackground (trace q')) = settle (clock q') q)"

inductive steps :: "(event \<Rightarrow> bool) \<Rightarrow> proc \<Rightarrow> proc \<Rightarrow> bool" for P :: "event \<Rightarrow> bool" and q :: proc where
  refl: "steps P q q"
| emit: "steps P q q' \<Longrightarrow> P ev \<Longrightarrow> steps P q (emit ev q')"
| block: "steps P q q' \<Longrightarrow> steps P q (block d q')"

text \<open>The request of lines 289-303 for the instance of a configuration.\<close>

definition bootstrapOf :: "Config \<Rightarrow> event list" where
  "bootstrapOf c =
     [Slog LevelInfo ''starting SSM session'',
      Call ''startSSMSessionWithPlugin'',
      StartSessionReq (InstanceID c) ''AWS-StartSSHSession'' [(''portNumber'', [''22''])]]"

text \<open>Two configurations with the same home directory and key triple.\<close>

definition sameKey :: "Config \<Rightarrow> Config \<Rightarrow> bool" where
  "sameKey c c' =
     (AppHome c' = AppHome c \<and> AwsProfile c' = AwsProfile c \<and>
      InstanceName c' = InstanceName c \<and> InstanceUser c' = InstanceUser c)"


text \<open>The lock file as line 119 creates it at clock \<open>now\<close>.\<close>

definition tokenAt :: "int \<Rightarrow> File" where
  "tokenAt now =
     \<lparr>content = Raw [], modTime = now, readable = True, writable = True, isDir = False\<rparr>"

text \<open>
  A run that fails as a whole, read on what the process reports to its caller: it ends
  by \<^verbatim>\<open>os.Exit\<close> with a non-zero status, as at line 95, or by a panic.
\<close>

definition runFailed :: "status \<Rightarrow> bool" where
  "runFailed st = (case st of Returned \<Rightarrow> False | Exited code \<Rightarrow> code \<noteq> 0 | Panicked \<Rightarrow> True)"

section \<open>Two processes at the lock\<close>

text \<open>
  What a process does to the lock file is a sequence of system calls: \<^verbatim>\<open>os.Stat\<close>,
  \<^verbatim>\<open>os.Remove\<close> when the file is stale, and the exclusive \<^verbatim>\<open>os.OpenFile\<close> (lines
  114-119); and, when that has created the file at \<open>t0\<close>, the \<^verbatim>\<open>os.Remove\<close> of the
  goroutine if the process still runs at \<open>t0\<close> + 50 s (lines 127-131) and the
  \<^verbatim>\<open>os.Remove\<close> deferred to the return from \<^verbatim>\<open>main\<close> (lines 121-124). A process that
  finds the lock held makes no further call on the lock file. Each call is atomic;
  between them another process may run. A schedule lists which process takes its next
  call, and at what time on the clock.
\<close>

datatype pc = AtStat | AtRemove | AtOpen | Holding int | Woken | AlreadyHeld | Ended

datatype pid = ProcA | ProcB

definition lock_step :: "string \<Rightarrow> int \<Rightarrow> filesystem \<times> pc \<Rightarrow> filesystem \<times> pc" where
  "lock_step lock now s =
     (case s of (fsys, c) \<Rightarrow>
        (case c of
           AtStat \<Rightarrow> if isStale now fsys lock then (fsys, AtRemove) else (fsys, AtOpen)
         | AtRemove \<Rightarrow> (Remove fsys lock, AtOpen)
         | AtOpen \<Rightarrow>
             (case OpenFile_EXCL_CREATE now fsys lock of
                Some fsys' \<Rightarrow> (fsys', Holding now)
              | None \<Rightarrow> (fsys, AlreadyHeld))
         | Holding t0 \<Rightarrow>
             if t0 + 50 * Second \<le> now then (Remove fsys lock, Woken) else (Remove fsys lock, Ended)
         | Woken \<Rightarrow> (Remove fsys lock, Ended)
         | AlreadyHeld \<Rightarrow> (fsys, AlreadyHeld)
         | Ended \<Rightarrow> (fsys, Ended)))"

fun race :: "string \<Rightarrow> (pid \<times> int) list \<Rightarrow> filesystem \<times> pc \<times> pc \<Rightarrow> filesystem \<times> pc \<times> pc" where
  "race lock [] s = s"
| "race lock ((ProcA, t) # sched) (fsys, a, b) =
     (case lock_step lock t (fsys, a) of (fsys', a') \<Rightarrow> race lock sched (fsys', a', b))"
| "race lock ((ProcB, t) # sched) (fsys, a, b) =
     (case lock_step lock t (fsys, b) of (fsys', b') \<Rightarrow> race lock sched (fsys', a, b'))"





section \<open>Concrete runs\<close>

text \<open>
  The instance \<open>web-1\<close> of profile \<open>prod\<close>, reached as \<open>ubuntu\<close>; an environment in
  which every service answers at once and the session lasts ten seconds; the files of
  the user, with the directory of the program and the helper installed in
  \<^verbatim>\<open>/usr/local/bin\<close>.
\<close>

definition web1 :: Config where
  "web1 = \<lparr>AppHome = ''/home/u/.ssm-ssh-connect'', AwsProfile = ''prod'', Region = ''us-east-1'',
            InstanceName = ''web-1'', InstanceID = ''i-0abc'', InstanceAZ = ''us-east-1a'',
            InstanceUser = ''ubuntu''\<rparr>"

definition web1_key :: Config where
  "web1_key = web1\<lparr>Region := [], InstanceID := [], InstanceAZ := []\<rparr>"

definition web1_lock :: string where
  "web1_lock = ''/home/u/.ssm-ssh-connect/prod-web-1-ubuntu.lock''"

definition web1_cache :: string where
  "web1_cache = ''/home/u/.ssm-ssh-connect/prod-web-1-ubuntu.json''"

definition oneInstance :: ec2_instance where
  "oneInstance =
     \<lparr>InstanceId = Some ''i-0abc'', Placement = Some \<lparr>AvailabilityZone = Some ''us-east-1a''\<rparr>\<rparr>"

definition quietEnv :: env where
  "quietEnv =
     \<lparr>Args = [''ssm-ssh-connect'', ''prod'', ''web-1'', ''ubuntu''],
      HOME = ''/home/u'',
      PATH = [''/usr/local/bin''],
      StartTime = 100000000000,
      MkdirAllFails = False,
      OpenLogFails = False,
      LoadConfigFails = False,
      DescribeInstances = (\<lambda>filters. Inr [[oneInstance]]),
      DescribeInstancesTime = 0,
      SendSSHPublicKey = (\<lambda>i u k z. None),
      SendSSHPublicKeyTime = 0,
      StartSession = (\<lambda>t d ps. Inr \<lparr>SessionId = Some ''s-1'', StreamUrl = Some ''wss://stream'',
                                       TokenValue = Some ''tok''\<rparr>),
      StartSessionTime = 0,
      PluginFails = (\<lambda>exe argv. False),
      PluginTime = 10000000000\<rparr>"

definition regular :: "bytes \<Rightarrow> int \<Rightarrow> File" where
  "regular data t =
     \<lparr>content = data, modTime = t, readable = True, writable = True, isDir = False\<rparr>"

definition directory :: "int \<Rightarrow> File" where
  "directory t =
     \<lparr>content = Raw [], modTime = t, readable = True, writable = True, isDir = True\<rparr>"

definition homeFiles :: filesystem where
  "homeFiles =
     [''/home/u/.ssm-ssh-connect'' \<mapsto> directory 0,
      ''/home/u/.ssh/id_rsa.pub'' \<mapsto> regular (Raw ''ssh-rsa AAAA'') 0,
      ''/usr/local/bin/session-manager-plugin'' \<mapsto> regular (Raw ''plugin'') 0]"

text \<open>The state in which \<open>web-1\<close> reaches the lock, at clock 100 s, on given files.\<close>

definition atLock :: "filesystem \<Rightarrow> proc" where
  "atLock fsys =
     \<lparr>cfg = web1, fs = fsys, clock = 100000000000, timer = None, deferred = [], trace = []\<rparr>"

text \<open>A lock file 70 seconds old, and one 5 seconds old, at clock 100 s.\<close>

definition staleFiles :: filesystem where
  "staleFiles = homeFiles(web1_lock \<mapsto> regular (Raw []) 30000000000)"

definition freshFiles :: filesystem where
  "freshFiles = homeFiles(web1_lock \<mapsto> regular (Raw []) 95000000000)"

text \<open>The key-injection service refuses.\<close>

definition pushDeniedEnv :: env where
  "pushDeniedEnv = quietEnv\<lparr>SendSSHPublicKey := (\<lambda>i u k z. Some ''AccessDenied'')\<rparr>"

text \<open>The session broker refuses.\<close>

definition brokerDownEnv :: env where
  "brokerDownEnv = quietEnv\<lparr>StartSession := (\<lambda>t d ps. Inl ''AccessDeniedException'')\<rparr>"

text \<open>
  A cache file one second old whose body is well-formed JSON with a number where the
  region is expected: \<^verbatim>\<open>{"instance_id":"i-0abc","region":5}\<close>.
\<close>

definition brokenCacheFiles :: filesystem where
  "brokenCacheFiles =
     homeFiles(web1_cache \<mapsto>
       regular (Encoded (JObject [(''instance_id'', JString ''i-0abc''), (''region'', JNumber ''5'')]))
         99000000000)"

text \<open>
  The helper installed in a directory of \<^verbatim>\<open>$PATH\<close> that is none of the three fixed
  locations, and no file of its name in the working directory.
\<close>

definition pathOnlyEnv :: env where
  "pathOnlyEnv = quietEnv\<lparr>PATH := [''/home/u/bin'']\<rparr>"

definition pathOnlyFiles :: filesystem where
  "pathOnlyFiles =
     [''/home/u/.ssh/id_rsa.pub'' \<mapsto> regular (Raw ''ssh-rsa AAAA'') 0,
      ''/home/u/bin/session-manager-plugin'' \<mapsto> regular (Raw ''plugin'') 0]"

text \<open>A session of 60 seconds.\<close>

definition slowEnv :: env where
  "slowEnv = quietEnv\<lparr>PluginTime := 60000000000\<rparr>"




section \<open>Properties of the codec, the clock and the cache\<close>

lemma Since_gt_iff:
  "minDuration \<le> d \<Longrightarrow> d < maxDuration \<Longrightarrow> (d < Since now t) = (d < now - t)"
  unfolding Since_def Let_def by auto

lemma fifty_seconds_stale: "(50 * Second < Since now t) = (50 * Second < now - t)"
  by (rule Since_gt_iff) (simp_all add: minDuration_def maxDuration_def Second_def)

lemma day_expired: "(24 * Hour < Since now t) = (24 * Hour < now - t)"
  by (rule Since_gt_iff) (simp_all add: minDuration_def maxDuration_def Second_def Hour_def)

lemma runeSize_ascii: "byte c < 128 \<Longrightarrow> runeSize (c # s) = 1"
  by (simp add: runeSize_def)

lemma coerceUTF8_Nil: "coerceUTF8 [] = []"
  by (simp add: coerceUTF8.simps)

lemma coerceUTF8_ascii: "byte c < 128 \<Longrightarrow> coerceUTF8 (c # s) = c # coerceUTF8 s"
  by (simp add: coerceUTF8.simps[of "c # s"] runeSize_ascii)


lemma ValidString_Nil: "ValidString []"
  by (simp add: ValidString.simps)



lemma coerceUTF8_length: "length s \<le> length (coerceUTF8 s)"
proof (induction s rule: coerceUTF8.induct)
  case (1 s)
  show ?case
  proof (cases "s = []")
    case True
    then show ?thesis by simp
  next
    case False
    show ?thesis
    proof (cases "runeSize s = 0")
      case True
      have "length (tl s) \<le> length (coerceUTF8 (tl s))" using "1.IH"(1)[OF False True] .
      then show ?thesis using False True by (simp add: coerceUTF8.simps[of s])
    next
      case n: False
      have "length (drop (runeSize s) s) \<le> length (coerceUTF8 (drop (runeSize s) s))"
        using "1.IH"(2)[OF False n] .
      then show ?thesis using False n by (simp add: coerceUTF8.simps[of s])
    qed
  qed
qed

lemma coerceUTF8_fixed: "coerceUTF8 s = s \<Longrightarrow> ValidString s"
proof (induction s rule: coerceUTF8.induct)
  case (1 s)
  show ?case
  proof (cases "s = []")
    case True
    then show ?thesis by (simp add: ValidString_Nil)
  next
    case False
    show ?thesis
    proof (cases "runeSize s = 0")
      case True
      have "coerceUTF8 s = [CHR 0xEF, CHR 0xBF, CHR 0xBD] @ coerceUTF8 (tl s)"
        using False True by (simp add: coerceUTF8.simps[of s])
      then have "length (coerceUTF8 s) = 3 + length (coerceUTF8 (tl s))" by simp
      moreover have "length (tl s) \<le> length (coerceUTF8 (tl s))" by (rule coerceUTF8_length)
      ultimately have "length s < length (coerceUTF8 s)" using False by (cases s) auto
      then show ?thesis using "1.prems" by simp
    next
      case n: False
      have "coerceUTF8 s = take (runeSize s) s @ coerceUTF8 (drop (runeSize s) s)"
        using False n by (simp add: coerceUTF8.simps[of s])
      then have "take (runeSize s) s @ coerceUTF8 (drop (runeSize s) s) =
                 take (runeSize s) s @ drop (runeSize s) s"
        using "1.prems" by (simp only: append_take_drop_id)
      then have "coerceUTF8 (drop (runeSize s) s) = drop (runeSize s) s"
        by (simp only: same_append_eq)
      from "1.IH"(2)[OF False n this] have "ValidString (drop (runeSize s) s)" .
      then show ?thesis using False n by (simp add: ValidString.simps[of s])
    qed
  qed
qed

lemma json_fields_eq:
  "json_fields =
     [(FRegion, ''region''), (FInstanceID, ''instance_id''), (FInstanceAZ, ''instance_az'')]"
  by (simp add: json_fields_def Config_tags_def)

lemma find_field_range:
  "find_field k = Some f \<Longrightarrow> f = FRegion \<or> f = FInstanceID \<or> f = FInstanceAZ"
  unfolding find_field_def json_fields_eq
  by (auto split: option.splits if_splits)

lemma set_field_frame:
  "f = FRegion \<or> f = FInstanceID \<or> f = FInstanceAZ \<Longrightarrow> sameKey c (set_field f v c)"
  by (auto simp: sameKey_def)

lemma store_members_frame:
  "sameKey c0 c \<Longrightarrow> sameKey c0 (fst (store_members ms (c, saved)))"
proof (induction ms arbitrary: c saved)
  case Nil
  then show ?case by simp
next
  case (Cons m ms)
  obtain k v where m: "m = (k, v)" by (cases m)
  show ?case
  proof (cases "find_field k")
    case None
    then show ?thesis using Cons m by simp
  next
    case (Some f)
    from find_field_range[OF Some] have "sameKey c (set_field f s c)" for s
      by (rule set_field_frame)
    then have k: "sameKey c0 (set_field f s c)" for s
      using Cons.prems by (simp add: sameKey_def)
    show ?thesis using Some m Cons.prems k
      by (cases v) (simp_all add: Cons.IH)
  qed
qed

lemma Unmarshal_frame: "sameKey c (fst (Unmarshal data c))"
proof (cases data)
  case (Raw s)
  then show ?thesis by (simp add: sameKey_def)
next
  case (Encoded v)
  have r: "sameKey c c" by (simp add: sameKey_def)
  show ?thesis using Encoded store_members_frame[OF r]
    by (cases v) (simp_all add: r)
qed

lemma loadCache_frame: "sameKey c (fst (loadCache now fsys c))"
proof -
  have r: "sameKey c c" by (simp add: sameKey_def)
  have u: "Unmarshal data c = (c', e) \<Longrightarrow> sameKey c c'" for data c' e
    using Unmarshal_frame[of c data] by simp
  show ?thesis
    by (auto simp: loadCache_def r split: option.splits prod.splits dest: u)
qed

text \<open>
  Claim C10. Whatever the cache file holds, \<^verbatim>\<open>loadCache\<close> leaves the application
  home directory and the key triple (profile, instance name, remote user) of the
  configuration as they were: only the region, the instance id and the availability
  zone can change, because the other four fields carry the tag \<^verbatim>\<open>json:"-"\<close>.
\<close>

theorem loadCache_keeps_key_and_home:
  "AppHome (fst (loadCache now fsys c)) = AppHome c \<and>
   AwsProfile (fst (loadCache now fsys c)) = AwsProfile c \<and>
   InstanceName (fst (loadCache now fsys c)) = InstanceName c \<and>
   InstanceUser (fst (loadCache now fsys c)) = InstanceUser c"
  using loadCache_frame[of c now fsys] by (simp add: sameKey_def)

text \<open>
  The four failures of \<^verbatim>\<open>loadCache\<close>, and what they leave of the configuration: a
  missing, expired or unreadable file and a body that is no JSON text leave it as it
  was. A body of the wrong type does not, see \<open>malformed_cache_is_not_a_miss\<close> below.
\<close>

lemma loadCache_failures:
  "(snd (loadCache now fsys c) \<noteq> None) =
     (fsys (cacheFile c) = None \<or>
      (\<exists>info. fsys (cacheFile c) = Some info \<and>
         (24 * Hour < now - modTime info \<or> \<not> readable info \<or> isDir info \<or>
          snd (Unmarshal (content info) c) \<noteq> None)))"
  by (auto simp: loadCache_def Stat_def ReadFile_def day_expired split: option.splits prod.splits)

lemma store_members_error:
  "snd (store_members ms (c, saved)) = Some SyntaxError \<Longrightarrow> saved = Some SyntaxError"
proof (induction ms arbitrary: c saved)
  case Nil
  then show ?case by simp
next
  case (Cons m ms)
  obtain k v where m: "m = (k, v)" by (cases m)
  show ?case
  proof (cases "find_field k")
    case None
    then show ?thesis using Cons m by simp
  next
    case (Some f)
    then show ?thesis using Cons m
      by (cases v) (auto simp: saveError_def split: option.splits dest!: Cons.IH)
  qed
qed

lemma Unmarshal_syntax_error:
  "snd (Unmarshal data c) = Some SyntaxError \<Longrightarrow> fst (Unmarshal data c) = c"
proof (cases data)
  case (Raw s)
  then show ?thesis by simp
next
  case (Encoded v)
  assume e: "snd (Unmarshal data c) = Some SyntaxError"
  show ?thesis using Encoded e
    by (cases v) (auto dest: store_members_error)
qed

lemma loadCache_untouched:
  assumes "snd (loadCache now fsys c) = Some err"
    and "err = CacheDoesNotExist \<or> err = CacheExpired \<or> err = ReadCacheFailed \<or>
         err = UnmarshalFailed SyntaxError"
  shows "fst (loadCache now fsys c) = c"
proof -
  have u: "Unmarshal data c = (c', Some SyntaxError) \<Longrightarrow> c' = c" for data c'
    using Unmarshal_syntax_error[of data c] by simp
  show ?thesis
    using assms
    by (auto simp: loadCache_def split: option.splits prod.splits if_splits dest: u)
qed






lemma web1_paths:
  "lockFileName web1 = web1_lock" "cacheFile web1 = web1_cache"
  by (simp_all add: lockFileName_def cacheFile_def web1_def web1_lock_def web1_cache_def)

lemma web1_dir:
  "hasDir homeFiles web1_lock" "hasDir homeFiles web1_cache"
  "homeFiles web1_lock = None" "homeFiles web1_cache = None"
  by (simp_all add: hasDir_def parentDir_def homeFiles_def web1_lock_def web1_cache_def directory_def)



section \<open>Properties of the stages of a run\<close>

lemma emit_sel [simp]:
  "cfg (emit ev p) = cfg p" "fs (emit ev p) = fs p" "clock (emit ev p) = clock p"
  "timer (emit ev p) = timer p" "deferred (emit ev p) = deferred p"
  "trace (emit ev p) = trace p @ [ev]"
  by (simp_all add: emit_def)

lemma block_sel [simp]:
  "cfg (block d p) = cfg p" "clock (block d p) = clock p + int d"
  "deferred (block d p) = deferred p"
  by (simp_all add: block_def Let_def split: option.splits)

lemma block_trace:
  "trace (block d p) = trace p \<or> (\<exists>path. trace (block d p) = trace p @ [Removed Background path])"
  by (auto simp: block_def Let_def split: option.splits)

lemma block_filter:
  assumes "\<And>path. \<not> P (Removed Background path)"
  shows "filter P (trace (block d p)) = filter P (trace p)"
  using block_trace[of d p] assms by auto

text \<open>
  Claim C6. When resolution returns an instance whose availability zone has at least
  one character, the region stored with it is the zone without its last character
  (characters are the bytes of the Go string). It is computed from the zone alone: the
  one request of the resolution is the directory query.
\<close>

theorem region_is_zone_without_last_character:
  assumes "DescribeInstances e
             [(''tag:Name'', [InstanceName (cfg p)]), (''instance-state-name'', [''running''])] = Inr rs"
    and "firstInstance rs = Some i"
    and "InstanceId i = Some ident"
    and "Placement i = Some pl"
    and "AvailabilityZone pl = Some az"
    and "1 \<le> length az"
  shows "fst (getInstanceDetails e p) = Ok () \<and>
         InstanceID (cfg (snd (getInstanceDetails e p))) = ident \<and>
         InstanceAZ (cfg (snd (getInstanceDetails e p))) = az \<and>
         Region (cfg (snd (getInstanceDetails e p))) = butlast az \<and>
         filter isRequest (trace (snd (getInstanceDetails e p))) =
           filter isRequest (trace p) @
           [DescribeInstancesReq
              [(''tag:Name'', [InstanceName (cfg p)]), (''instance-state-name'', [''running''])]]"
  using assms
  by (auto simp: getInstanceDetails_def assignInstance_def Let_def block_filter butlast_conv_take)


theorem region_is_zone_without_last_character_witness:
  "DescribeInstances quietEnv
     [(''tag:Name'', [InstanceName (cfg (atLock homeFiles))]), (''instance-state-name'', [''running''])] =
     Inr [[oneInstance]] \<and>
   firstInstance [[oneInstance]] = Some oneInstance \<and>
   InstanceId oneInstance = Some ''i-0abc'' \<and>
   Placement oneInstance = Some \<lparr>AvailabilityZone = Some ''us-east-1a''\<rparr> \<and>
   AvailabilityZone \<lparr>AvailabilityZone = Some ''us-east-1a''\<rparr> = Some ''us-east-1a'' \<and>
   1 \<le> length ''us-east-1a'' \<and>
   fst (getInstanceDetails quietEnv (atLock homeFiles)) = Ok () \<and>
   InstanceAZ (cfg (snd (getInstanceDetails quietEnv (atLock homeFiles)))) = ''us-east-1a'' \<and>
   Region (cfg (snd (getInstanceDetails quietEnv (atLock homeFiles)))) = ''us-east-1''"
  using region_is_zone_without_last_character
          [of quietEnv "atLock homeFiles" "[[oneInstance]]" oneInstance "''i-0abc''"
              "\<lparr>AvailabilityZone = Some ''us-east-1a''\<rparr>" "''us-east-1a''"]
  by (simp add: quietEnv_def oneInstance_def)

lemma block_trace_bg:
  "\<exists>bg. trace (block d p) = trace p @ bg \<and> list_all isBackground bg"
  by (auto simp: block_def Let_def emit_def split: option.splits)

lemma steps_frame:
  "steps P q q' \<Longrightarrow> cfg q' = cfg q \<and> deferred q' = deferred q \<and> clock q \<le> clock q'"
  by (induction rule: steps.induct) auto

lemma steps_trace:
  "steps P q q' \<Longrightarrow> \<exists>evs. trace q' = trace q @ evs \<and> list_all (\<lambda>ev. P ev \<or> isBackground ev) evs"
proof (induction rule: steps.induct)
  case refl
  then show ?case by simp
next
  case (emit q' ev)
  then show ?case by auto
next
  case (block q' d)
  then obtain evs where evs: "trace q' = trace q @ evs" "list_all (\<lambda>ev. P ev \<or> isBackground ev) evs"
    by blast
  obtain bg where bg: "trace (block d q') = trace q' @ bg" "list_all isBackground bg"
    using block_trace_bg by blast
  have "list_all (\<lambda>ev. P ev \<or> isBackground ev) (evs @ bg)"
    using evs(2) bg(2) by (auto simp: list_all_iff)
  then show ?case using evs(1) bg(1) by auto
qed

lemma follows_refl: "armed q \<Longrightarrow> follows q q"
  by (auto simp: follows_def settle_def armed_def split: option.splits)

lemma follows_emit: "follows q q' \<Longrightarrow> \<not> isBackground ev \<Longrightarrow> follows q (emit ev q')"
  by (auto simp: follows_def armed_def split: option.splits)

lemma follows_block: "follows q q' \<Longrightarrow> follows q (block d q')"
  by (auto simp: follows_def settle_def armed_def block_def Let_def emit_def
      split: option.splits if_splits)

lemma steps_follows:
  assumes "steps P q q'" and "armed q" and "\<And>ev. P ev \<Longrightarrow> \<not> isBackground ev"
  shows "follows q q'"
  using assms
  by (induction rule: steps.induct) (auto intro: follows_refl follows_emit follows_block)

lemma steps_trans:
  assumes "steps P q' q''" and "steps P q q'"
  shows "steps P q q''"
  using assms by (induction rule: steps.induct) (auto intro: steps.intros)

lemma startSSM_steps:
  "steps sessionEvent q (snd (startSSMSessionWithPlugin e q))"
  by (auto simp: startSSMSessionWithPlugin_def Let_def split: sum.splits option.splits
      intro!: steps.intros)

lemma startSSM_begin:
  "\<exists>evs. trace (snd (startSSMSessionWithPlugin e q)) =
           trace q @ Call ''startSSMSessionWithPlugin'' #
             StartSessionReq (InstanceID (cfg q)) ''AWS-StartSSHSession'' [(''portNumber'', [''22''])] # evs \<and>
         list_all (\<lambda>ev. helperEvent ev \<or> isBackground ev) evs"
proof -
  let ?b = "block (StartSessionTime e)
              (emit (StartSessionReq (InstanceID (cfg q)) ''AWS-StartSSHSession'' [(''portNumber'', [''22''])])
                 (emit (Call ''startSSMSessionWithPlugin'') q))"
  have "steps helperEvent ?b (snd (startSSMSessionWithPlugin e q))"
    by (auto simp: startSSMSessionWithPlugin_def Let_def split: sum.splits option.splits
        intro!: steps.intros)
  from steps_trace[OF this] obtain evs where
    evs: "trace (snd (startSSMSessionWithPlugin e q)) = trace ?b @ evs"
      "list_all (\<lambda>ev. helperEvent ev \<or> isBackground ev) evs"
    by blast
  obtain bg where bg0: "trace ?b =
      trace (emit (StartSessionReq (InstanceID (cfg q)) ''AWS-StartSSHSession'' [(''portNumber'', [''22''])])
                 (emit (Call ''startSSMSessionWithPlugin'') q)) @ bg"
      and bg2: "list_all isBackground bg"
    using block_trace_bg by blast
  have bg: "trace ?b = trace q @ [Call ''startSSMSessionWithPlugin'',
      StartSessionReq (InstanceID (cfg q)) ''AWS-StartSSHSession'' [(''portNumber'', [''22''])]] @ bg"
      "list_all isBackground bg"
    using bg0 bg2 by simp_all
  have "list_all (\<lambda>ev. helperEvent ev \<or> isBackground ev) (bg @ evs)"
    using evs(2) bg(2) by (auto simp: list_all_iff)
  then show ?thesis using evs(1) bg(1) by auto
qed

lemma main_return_trace:
  "trace (snd (main_return q)) = trace q @ map (Removed Deferred) (deferred q)"
proof -
  have "trace (foldl (\<lambda>q path. emit (Removed Deferred path) (q\<lparr>fs := Remove (fs q) path\<rparr>)) q ps) =
          trace q @ map (Removed Deferred) ps" for ps
    by (induction ps arbitrary: q) simp_all
  then show ?thesis by (simp add: main_return_def)
qed

lemma main_return_sel:
  "fst (main_return q) = Returned" "clock (snd (main_return q)) = clock q"
  "cfg (snd (main_return q)) = cfg q"
  "fs (snd (main_return q)) = foldl Remove (fs q) (deferred q)"
proof -
  let ?f = "\<lambda>q path. emit (Removed Deferred path) (q\<lparr>fs := Remove (fs q) path\<rparr>)"
  have "clock (foldl ?f q ps) = clock q \<and> cfg (foldl ?f q ps) = cfg q \<and>
        fs (foldl ?f q ps) = foldl Remove (fs q) ps" for ps
    by (induction ps arbitrary: q) simp_all
  then show "fst (main_return q) = Returned" "clock (snd (main_return q)) = clock q"
    "cfg (snd (main_return q)) = cfg q"
    "fs (snd (main_return q)) = foldl Remove (fs q) (deferred q)"
    by (simp_all add: main_return_def)
qed

lemma main_session_shape:
  "\<exists>q' evs. main_session e q = main_return q' \<and> steps sessionEvent q q' \<and>
      trace q' = trace q @ bootstrapOf (cfg q) @ evs @ [Slog LevelInfo ''session completed''] \<and>
      list_all (\<lambda>ev. helperEvent ev \<or> isBackground ev) evs"
proof -
  obtain r q1 where r: "startSSMSessionWithPlugin e (emit (Slog LevelInfo ''starting SSM session'') q) = (r, q1)"
    by (cases "startSSMSessionWithPlugin e (emit (Slog LevelInfo ''starting SSM session'') q)")
  let ?q0 = "emit (Slog LevelInfo ''starting SSM session'') q"
  have s0: "steps sessionEvent q ?q0" by (auto intro: steps.intros)
  have s1: "steps sessionEvent ?q0 q1" using startSSM_steps[of ?q0 e] r by simp
  have s: "steps sessionEvent q q1" by (rule steps_trans[OF s1 s0])
  obtain evs where evs: "trace q1 = trace ?q0 @ Call ''startSSMSessionWithPlugin'' #
             StartSessionReq (InstanceID (cfg ?q0)) ''AWS-StartSSHSession'' [(''portNumber'', [''22''])] # evs"
         "list_all (\<lambda>ev. helperEvent ev \<or> isBackground ev) evs"
    using startSSM_begin[of e ?q0] r by auto
  show ?thesis
  proof (cases r)
    case None
    let ?q' = "emit (Slog LevelInfo ''session completed'') q1"
    have "main_session e q = main_return ?q'" using r None by (simp add: main_session_def)
    moreover have "steps sessionEvent q ?q'" using s by (auto intro: steps.intros)
    moreover have "trace ?q' = trace q @ bootstrapOf (cfg q) @ evs @ [Slog LevelInfo ''session completed'']"
      using evs(1) by (simp add: bootstrapOf_def)
    ultimately show ?thesis using evs(2) by blast
  next
    case (Some err)
    let ?q' = "emit (Slog LevelInfo ''session completed'') (emit (Slog LevelError ''Failed to start SSM session'') q1)"
    let ?evs = "evs @ [Slog LevelError ''Failed to start SSM session'']"
    have "main_session e q = main_return ?q'" using r Some by (simp add: main_session_def)
    moreover have "steps sessionEvent q ?q'" using s by (auto intro!: steps.emit)
    moreover have "trace ?q' = trace q @ bootstrapOf (cfg q) @ ?evs @ [Slog LevelInfo ''session completed'']"
      using evs(1) by (simp add: bootstrapOf_def)
    moreover have "list_all (\<lambda>ev. helperEvent ev \<or> isBackground ev) ?evs"
      using evs(2) by simp
    ultimately show ?thesis by blast
  qed
qed


lemma newEvents_eq: "trace (snd r) = trace p @ evs \<Longrightarrow> newEvents p r = evs"
  by (simp add: newEvents_def)

lemma steps_mono:
  assumes "steps P q q'" and "\<And>ev. P ev \<Longrightarrow> Q ev"
  shows "steps Q q q'"
  using assms by (induction rule: steps.induct) (auto intro: steps.intros)

lemma sendSSH_steps: "steps pushEvent q (snd (sendSSHPublicKey e q))"
  by (auto simp: sendSSHPublicKey_def Let_def split: option.splits intro!: steps.intros)

lemma sendSSH_begin:
  "\<exists>evs. trace (snd (sendSSHPublicKey e q)) = trace q @ Call ''sendSSHPublicKey'' # evs \<and>
         list_all (\<lambda>ev. pushEvent ev \<or> isBackground ev) evs"
proof -
  let ?b = "emit (Call ''sendSSHPublicKey'') q"
  have "steps pushEvent ?b (snd (sendSSHPublicKey e q))"
    by (auto simp: sendSSHPublicKey_def Let_def split: option.splits intro!: steps.intros)
  from steps_trace[OF this] show ?thesis by auto
qed

lemma sendSSH_fst_emit: "fst (sendSSHPublicKey e (emit ev q)) = fst (sendSSHPublicKey e q)"
  by (auto simp: sendSSHPublicKey_def Let_def split: option.splits)

lemma main_push_shape:
  "\<exists>q' pre evs. main_push e q = main_return q' \<and> steps pushOrSession q q' \<and>
      trace q' = trace q @ [Slog LevelInfo ''sending SSH public key'', Call ''sendSSHPublicKey''] @ pre @
        (if fst (sendSSHPublicKey e q) = None then []
         else [Slog LevelError ''failed to send SSH public key'']) @
        [Slog LevelInfo ''SSH public key sent''] @ bootstrapOf (cfg q) @ evs @
        [Slog LevelInfo ''session completed''] \<and>
      list_all (\<lambda>ev. pushEvent ev \<or> isBackground ev) pre \<and>
      list_all (\<lambda>ev. helperEvent ev \<or> isBackground ev) evs"
proof -
  let ?q4 = "emit (Slog LevelInfo ''sending SSH public key'') q"
  obtain r q5 where r: "sendSSHPublicKey e ?q4 = (r, q5)"
    by (cases "sendSSHPublicKey e ?q4")
  have r': "fst (sendSSHPublicKey e q) = r"
    using sendSSH_fst_emit[of e "Slog LevelInfo ''sending SSH public key''" q] r by simp
  have s4: "steps pushOrSession q ?q4" by (auto intro!: steps.intros simp: pushOrSession_def)
  have "steps pushEvent ?q4 q5" using sendSSH_steps[of ?q4 e] r by simp
  then have s5: "steps pushOrSession ?q4 q5" by (rule steps_mono) (simp add: pushOrSession_def)
  obtain pre where pre: "trace q5 = trace ?q4 @ Call ''sendSSHPublicKey'' # pre"
      "list_all (\<lambda>ev. pushEvent ev \<or> isBackground ev) pre"
    using sendSSH_begin[of e ?q4] r by auto
  have c5: "cfg q5 = cfg q" using steps_frame[OF s5] by simp
  let ?q6 = "(if r = None then emit (Slog LevelInfo ''SSH public key sent'') q5
             else emit (Slog LevelInfo ''SSH public key sent'')
                    (emit (Slog LevelError ''failed to send SSH public key'') q5))"
  have m: "main_push e q = main_session e ?q6"
    using r by (cases r) (simp_all add: main_push_def)
  have s6: "steps pushOrSession q5 ?q6"
    by (auto intro!: steps.intros simp: pushOrSession_def)
  have c6: "cfg ?q6 = cfg q" using c5 by simp
  have t6: "trace ?q6 = trace q @ [Slog LevelInfo ''sending SSH public key'', Call ''sendSSHPublicKey''] @ pre @
        (if r = None then [] else [Slog LevelError ''failed to send SSH public key'']) @
        [Slog LevelInfo ''SSH public key sent'']"
    using pre(1) by simp
  from main_session_shape[of e ?q6] obtain q' evs where
    q': "main_session e ?q6 = main_return q'" "steps sessionEvent ?q6 q'"
      "trace q' = trace ?q6 @ bootstrapOf (cfg ?q6) @ evs @ [Slog LevelInfo ''session completed'']"
      "list_all (\<lambda>ev. helperEvent ev \<or> isBackground ev) evs"
    by blast
  have s7: "steps pushOrSession ?q6 q'"
    using q'(2) by (rule steps_mono) (simp add: pushOrSession_def)
  have st: "steps pushOrSession q q'"
    by (rule steps_trans[OF s7 steps_trans[OF s6 steps_trans[OF s5 s4]]])
  have tr: "trace q' = trace q @ [Slog LevelInfo ''sending SSH public key'', Call ''sendSSHPublicKey''] @ pre @
        (if fst (sendSSHPublicKey e q) = None then []
         else [Slog LevelError ''failed to send SSH public key'']) @
        [Slog LevelInfo ''SSH public key sent''] @ bootstrapOf (cfg q) @ evs @
        [Slog LevelInfo ''session completed'']"
    unfolding q'(3) t6 c6 r' by simp
  have a: "main_push e q = main_return q'" using m q'(1) by simp
  show ?thesis
    by (rule exI[of _ q'], rule exI[of _ pre], rule exI[of _ evs])
       (intro conjI a st tr pre(2) q'(4))
qed


lemma filter_none: "list_all Q xs \<Longrightarrow> (\<And>ev. Q ev \<Longrightarrow> \<not> P ev) \<Longrightarrow> filter P xs = []"
  by (induction xs) auto

lemma kinds_acquire:
  "pushEvent ev \<Longrightarrow> \<not> isAcquire ev"
  "helperEvent ev \<Longrightarrow> \<not> isAcquire ev"
  "isBackground ev \<Longrightarrow> \<not> isAcquire ev"
  by (cases ev rule: isAcquire.cases; simp)+

lemma kinds_keypush:
  "helperEvent ev \<Longrightarrow> \<not> isKeyPush ev"
  "isBackground ev \<Longrightarrow> \<not> isKeyPush ev"
  by (cases ev rule: isKeyPush.cases; simp)+

lemma kinds_bootstrap:
  "pushEvent ev \<Longrightarrow> \<not> isBootstrap ev"
  "helperEvent ev \<Longrightarrow> \<not> isBootstrap ev"
  "isBackground ev \<Longrightarrow> \<not> isBootstrap ev"
  by (cases ev rule: isBootstrap.cases; simp)+

lemma kinds_launch: "isBackground ev \<Longrightarrow> \<not> isLaunch ev"
  by (cases ev rule: isLaunch.cases) auto

lemma filter_deferred:
  "filter isAcquire (map (Removed Deferred) ps) = []"
  "filter isKeyPush (map (Removed Deferred) ps) = []"
  "filter isBootstrap (map (Removed Deferred) ps) = []"
  "filter isLaunch (map (Removed Deferred) ps) = []"
  "filter isBackground (map (Removed Deferred) ps) = []"
  by (induction ps) auto

lemma isStale_age:
  "fsys path = Some f \<Longrightarrow> isStale now fsys path = (50 * Second < now - modTime f)"
  by (simp add: isStale_def Stat_def fifty_seconds_stale)

lemma Remove_gone: "Remove (Remove fsys path) path = Remove fsys path"
  by (auto simp: Remove_def split: option.splits)

lemma Remove_absent: "fsys path = None \<Longrightarrow> Remove fsys path = fsys"
  by (auto simp: Remove_def)

lemma Remove_other: "L \<noteq> path \<Longrightarrow> Remove fsys path L = fsys L"
  by (simp add: Remove_def split: option.splits)

lemma Remove_file: "fsys path = Some f \<Longrightarrow> \<not> isDir f \<Longrightarrow> Remove fsys path = fsys(path := None)"
  by (simp add: Remove_def)

lemma hasDir_Remove_file:
  "fsys path = Some f \<Longrightarrow> \<not> isDir f \<Longrightarrow> hasDir fsys path \<Longrightarrow> hasDir (fsys(path := None)) path"
  by (auto simp: hasDir_def split: option.splits)

lemma lock_is_no_key: "lockFileName c \<noteq> h @ ''/.ssh/id_rsa.pub''"
proof
  assume "lockFileName c = h @ ''/.ssh/id_rsa.pub''"
  then have "last (lockFileName c) = last (h @ ''/.ssh/id_rsa.pub'')" by simp
  then show False by (simp add: lockFileName_def)
qed

text \<open>The acquisition: what it leaves of the state, and how \<^verbatim>\<open>main\<close> goes on.\<close>

lemma main_acquire_sel:
  "cfg (snd (main_acquire q)) = cfg q" "clock (snd (main_acquire q)) = clock q"
  "deferred (snd (main_acquire q)) = deferred q" "timer (snd (main_acquire q)) = timer q"
  "trace (snd (main_acquire q)) =
     trace q @ Slog LevelInfo (''checking lock file '' @ lockFileName (cfg q)) #
       (if isStale (clock q) (fs q) (lockFileName (cfg q))
        then [Removed Inline (lockFileName (cfg q))] else []) @
       (if fst (main_acquire q) then [Created (lockFileName (cfg q))] else [])"
  by (simp_all add: main_acquire_def Let_def split: option.splits)

lemma main_acquire_token:
  "fst (main_acquire q) \<Longrightarrow>
     fs (snd (main_acquire q)) (lockFileName (cfg q)) = Some (tokenAt (clock q))"
  by (auto simp: main_acquire_def Let_def OpenFile_EXCL_CREATE_def tokenAt_def
      split: option.splits if_splits)

lemma main_lock_acquired:
  assumes "fst (main_acquire q)"
  shows "main_lock e q =
           main_push e
             ((snd (main_acquire q))
                \<lparr>deferred := lockFileName (cfg q) # deferred q,
                 timer := Some (clock q + 50 * Second, lockFileName (cfg q))\<rparr>)"
proof -
  obtain b q' where a: "main_acquire q = (b, q')" by (cases "main_acquire q")
  then have b: "b" using assms by simp
  show ?thesis
    using main_acquire_sel(1-3)[of q] b unfolding a by (simp add: main_lock_def a)
qed

lemma main_lock_held:
  assumes "\<not> fst (main_acquire q)"
  shows "main_lock e q = main_session e (snd (main_acquire q))"
proof -
  obtain b q' where a: "main_acquire q = (b, q')" by (cases "main_acquire q")
  then have b: "\<not> b" using assms by simp
  show ?thesis using b by (simp add: main_lock_def a)
qed

lemma main_acquire_stale:
  assumes "fs q (lockFileName (cfg q)) = Some f" and "\<not> isDir f"
    and "hasDir (fs q) (lockFileName (cfg q))"
    and "50 * Second < clock q - modTime f"
  shows "main_acquire q =
           (True,
            q\<lparr>fs := (fs q)(lockFileName (cfg q) \<mapsto> tokenAt (clock q)),
              trace := trace q @
                [Slog LevelInfo (''checking lock file '' @ lockFileName (cfg q)),
                 Removed Inline (lockFileName (cfg q)), Created (lockFileName (cfg q))]\<rparr>)"
proof -
  have st: "isStale (clock q) (fs q) (lockFileName (cfg q))"
    using assms(1,4) by (simp add: isStale_age)
  have rm: "Remove (fs q) (lockFileName (cfg q)) = (fs q)(lockFileName (cfg q) := None)"
    using assms(1,2) by (rule Remove_file)
  have d: "hasDir ((fs q)(lockFileName (cfg q) := None)) (lockFileName (cfg q))"
    using assms(1-3) by (rule hasDir_Remove_file)
  show ?thesis
    using st d by (simp add: main_acquire_def Let_def rm OpenFile_EXCL_CREATE_def tokenAt_def emit_def)
qed

lemma main_acquire_fresh:
  assumes "fs q (lockFileName (cfg q)) = Some f"
    and "clock q - modTime f \<le> 50 * Second"
  shows "main_acquire q =
           (False, emit (Slog LevelInfo (''checking lock file '' @ lockFileName (cfg q))) q)"
proof -
  have st: "\<not> isStale (clock q) (fs q) (lockFileName (cfg q))"
    using assms by (simp add: isStale_age)
  show ?thesis
    using st assms(1) by (simp add: main_acquire_def Let_def OpenFile_EXCL_CREATE_def)
qed

text \<open>The new events of the three ways through the lock.\<close>

lemma main_session_new:
  "\<exists>evs. newEvents q (main_session e q) =
           bootstrapOf (cfg q) @ evs @ [Slog LevelInfo ''session completed''] @
           map (Removed Deferred) (deferred q) \<and>
         list_all (\<lambda>ev. helperEvent ev \<or> isBackground ev) evs"
proof -
  from main_session_shape[of e q] obtain q' evs where
    q': "main_session e q = main_return q'" "steps sessionEvent q q'"
      "trace q' = trace q @ bootstrapOf (cfg q) @ evs @ [Slog LevelInfo ''session completed'']"
      "list_all (\<lambda>ev. helperEvent ev \<or> isBackground ev) evs"
    by blast
  have d: "deferred q' = deferred q" using steps_frame[OF q'(2)] by simp
  have "trace (snd (main_session e q)) = trace q @ (bootstrapOf (cfg q) @ evs @
      [Slog LevelInfo ''session completed''] @ map (Removed Deferred) (deferred q))"
    using q'(1,3) d by (simp add: main_return_trace)
  from newEvents_eq[OF this] q'(4) show ?thesis by blast
qed

lemma main_push_new:
  "\<exists>pre evs. newEvents q (main_push e q) =
           [Slog LevelInfo ''sending SSH public key'', Call ''sendSSHPublicKey''] @ pre @
           (if fst (sendSSHPublicKey e q) = None then []
            else [Slog LevelError ''failed to send SSH public key'']) @
           [Slog LevelInfo ''SSH public key sent''] @ bootstrapOf (cfg q) @ evs @
           [Slog LevelInfo ''session completed''] @ map (Removed Deferred) (deferred q) \<and>
         list_all (\<lambda>ev. pushEvent ev \<or> isBackground ev) pre \<and>
         list_all (\<lambda>ev. helperEvent ev \<or> isBackground ev) evs"
proof -
  from main_push_shape[of e q] obtain q' pre evs where
    q': "main_push e q = main_return q'" "steps pushOrSession q q'"
      "trace q' = trace q @ [Slog LevelInfo ''sending SSH public key'', Call ''sendSSHPublicKey''] @ pre @
        (if fst (sendSSHPublicKey e q) = None then []
         else [Slog LevelError ''failed to send SSH public key'']) @
        [Slog LevelInfo ''SSH public key sent''] @ bootstrapOf (cfg q) @ evs @
        [Slog LevelInfo ''session completed'']"
      "list_all (\<lambda>ev. pushEvent ev \<or> isBackground ev) pre"
      "list_all (\<lambda>ev. helperEvent ev \<or> isBackground ev) evs"
    by blast
  have d: "deferred q' = deferred q" using steps_frame[OF q'(2)] by simp
  have "trace (snd (main_push e q)) = trace q @
          ([Slog LevelInfo ''sending SSH public key'', Call ''sendSSHPublicKey''] @ pre @
           (if fst (sendSSHPublicKey e q) = None then []
            else [Slog LevelError ''failed to send SSH public key'']) @
           [Slog LevelInfo ''SSH public key sent''] @ bootstrapOf (cfg q) @ evs @
           [Slog LevelInfo ''session completed''] @ map (Removed Deferred) (deferred q))"
    using q'(1,3) d by (simp add: main_return_trace)
  from newEvents_eq[OF this] q'(4,5) show ?thesis by blast
qed

lemma newEvents_via:
  assumes "r = F p3" and "trace p3 = trace q @ pre"
    and "\<exists>evs. trace (snd (F p3)) = trace p3 @ evs"
  shows "newEvents q r = pre @ newEvents p3 (F p3)"
  using assms by (auto simp: newEvents_def)

lemma main_push_ext: "\<exists>evs. trace (snd (main_push e q)) = trace q @ evs"
  using main_push_shape[of e q] by (auto simp: main_return_trace)

lemma main_session_ext: "\<exists>evs. trace (snd (main_session e q)) = trace q @ evs"
  using main_session_shape[of e q] by (auto simp: main_return_trace)


lemma main_lock_new_acquired:
  assumes "fst (main_acquire q)"
  shows "\<exists>pre evs. newEvents q (main_lock e q) =
           Slog LevelInfo (''checking lock file '' @ lockFileName (cfg q)) #
           (if isStale (clock q) (fs q) (lockFileName (cfg q))
            then [Removed Inline (lockFileName (cfg q))] else []) @
           [Created (lockFileName (cfg q)), Slog LevelInfo ''sending SSH public key'',
            Call ''sendSSHPublicKey''] @ pre @
           [Slog LevelInfo ''SSH public key sent''] @ bootstrapOf (cfg q) @ evs @
           [Slog LevelInfo ''session completed''] @
           map (Removed Deferred) (lockFileName (cfg q) # deferred q) \<and>
         list_all (\<lambda>ev. pushEvent ev \<or> isBackground ev) pre \<and>
         list_all (\<lambda>ev. helperEvent ev \<or> isBackground ev) evs"
proof -
  let ?lock = "lockFileName (cfg q)"
  let ?acq = "Slog LevelInfo (''checking lock file '' @ ?lock) #
           (if isStale (clock q) (fs q) ?lock then [Removed Inline ?lock] else []) @ [Created ?lock]"
  let ?p3 = "(snd (main_acquire q))\<lparr>deferred := ?lock # deferred q,
                                       timer := Some (clock q + 50 * Second, ?lock)\<rparr>"
  have p3: "main_lock e q = main_push e ?p3" "cfg ?p3 = cfg q"
      "deferred ?p3 = ?lock # deferred q" "trace ?p3 = trace q @ ?acq"
    using main_lock_acquired[OF assms, of e] main_acquire_sel[of q] assms by simp_all
  from main_push_new[of ?p3 e] obtain pre0 evs where
    n: "newEvents ?p3 (main_push e ?p3) =
           [Slog LevelInfo ''sending SSH public key'', Call ''sendSSHPublicKey''] @ pre0 @
           (if fst (sendSSHPublicKey e ?p3) = None then []
            else [Slog LevelError ''failed to send SSH public key'']) @
           [Slog LevelInfo ''SSH public key sent''] @ bootstrapOf (cfg ?p3) @ evs @
           [Slog LevelInfo ''session completed''] @ map (Removed Deferred) (deferred ?p3)"
      "list_all (\<lambda>ev. pushEvent ev \<or> isBackground ev) pre0"
      "list_all (\<lambda>ev. helperEvent ev \<or> isBackground ev) evs"
    by blast
  let ?pre = "pre0 @ (if fst (sendSSHPublicKey e ?p3) = None then []
            else [Slog LevelError ''failed to send SSH public key''])"
  have pre: "list_all (\<lambda>ev. pushEvent ev \<or> isBackground ev) ?pre"
    using n(2) by simp
  have "newEvents q (main_lock e q) = ?acq @ newEvents ?p3 (main_push e ?p3)"
    by (rule newEvents_via[where F = "main_push e", OF p3(1) p3(4) main_push_ext])
  then have "newEvents q (main_lock e q) =
           Slog LevelInfo (''checking lock file '' @ ?lock) #
           (if isStale (clock q) (fs q) ?lock then [Removed Inline ?lock] else []) @
           [Created ?lock, Slog LevelInfo ''sending SSH public key'',
            Call ''sendSSHPublicKey''] @ ?pre @
           [Slog LevelInfo ''SSH public key sent''] @ bootstrapOf (cfg q) @ evs @
           [Slog LevelInfo ''session completed''] @
           map (Removed Deferred) (?lock # deferred q)"
    unfolding n(1) p3(2) p3(3) by simp
  then show ?thesis using pre n(3) by blast
qed

lemma main_lock_new_held:
  assumes "\<not> fst (main_acquire q)"
  shows "\<exists>evs. newEvents q (main_lock e q) =
           Slog LevelInfo (''checking lock file '' @ lockFileName (cfg q)) #
           (if isStale (clock q) (fs q) (lockFileName (cfg q))
            then [Removed Inline (lockFileName (cfg q))] else []) @
           bootstrapOf (cfg q) @ evs @ [Slog LevelInfo ''session completed''] @
           map (Removed Deferred) (deferred q) \<and>
         list_all (\<lambda>ev. helperEvent ev \<or> isBackground ev) evs"
proof -
  let ?lock = "lockFileName (cfg q)"
  let ?p2 = "snd (main_acquire q)"
  let ?pre = "Slog LevelInfo (''checking lock file '' @ ?lock) #
           (if isStale (clock q) (fs q) ?lock then [Removed Inline ?lock] else [])"
  have m: "main_lock e q = main_session e ?p2" by (rule main_lock_held[OF assms])
  have t: "trace ?p2 = trace q @ ?pre" using main_acquire_sel(5)[of q] assms by simp
  from main_session_new[of ?p2 e] obtain evs where
    n: "newEvents ?p2 (main_session e ?p2) =
           bootstrapOf (cfg ?p2) @ evs @ [Slog LevelInfo ''session completed''] @
           map (Removed Deferred) (deferred ?p2)"
       "list_all (\<lambda>ev. helperEvent ev \<or> isBackground ev) evs"
    by blast
  have "newEvents q (main_lock e q) = ?pre @ newEvents ?p2 (main_session e ?p2)"
    by (rule newEvents_via[where F = "main_session e", OF m t main_session_ext])
  then have "newEvents q (main_lock e q) =
           Slog LevelInfo (''checking lock file '' @ ?lock) #
           (if isStale (clock q) (fs q) ?lock then [Removed Inline ?lock] else []) @
           bootstrapOf (cfg q) @ evs @ [Slog LevelInfo ''session completed''] @
           map (Removed Deferred) (deferred q)"
    unfolding n(1) main_acquire_sel by simp
  then show ?thesis using n(2) by blast
qed

text \<open>The first events of the key push: the request, or the failure to read the key.\<close>

lemma main_push_head:
  "take 3 (newEvents q (main_push e q)) =
     [Slog LevelInfo ''sending SSH public key'', Call ''sendSSHPublicKey'',
      (case ReadFile (fs q) (HOME e @ ''/.ssh/id_rsa.pub'') of
         Some key \<Rightarrow> SendSSHPublicKeyReq (InstanceID (cfg q)) (InstanceUser (cfg q)) key (InstanceAZ (cfg q))
       | None \<Rightarrow> Slog LevelError ''failed to send SSH public key'')]"
proof -
  let ?q4 = "emit (Slog LevelInfo ''sending SSH public key'') q"
  let ?third = "(case ReadFile (fs q) (HOME e @ ''/.ssh/id_rsa.pub'') of
         Some key \<Rightarrow> SendSSHPublicKeyReq (InstanceID (cfg q)) (InstanceUser (cfg q)) key (InstanceAZ (cfg q))
       | None \<Rightarrow> Slog LevelError ''failed to send SSH public key'')"
  have "\<exists>q6 evs. main_push e q = main_session e q6 \<and>
          trace q6 = trace q @ [Slog LevelInfo ''sending SSH public key'', Call ''sendSSHPublicKey'',
                                ?third] @ evs"
  proof (cases "ReadFile (fs q) (HOME e @ ''/.ssh/id_rsa.pub'')")
    case None
    let ?q6 = "emit (Slog LevelInfo ''SSH public key sent'')
                 (emit (Slog LevelError ''failed to send SSH public key'')
                    (emit (Call ''sendSSHPublicKey'') ?q4))"
    have "main_push e q = main_session e ?q6"
      using None by (simp add: main_push_def sendSSHPublicKey_def Let_def)
    moreover have "trace ?q6 = trace q @ [Slog LevelInfo ''sending SSH public key'',
        Call ''sendSSHPublicKey'', ?third] @ [Slog LevelInfo ''SSH public key sent'']"
      using None by simp
    ultimately show ?thesis by blast
  next
    case (Some key)
    let ?req = "SendSSHPublicKeyReq (InstanceID (cfg q)) (InstanceUser (cfg q)) key (InstanceAZ (cfg q))"
    let ?q5 = "block (SendSSHPublicKeyTime e) (emit ?req (emit (Call ''sendSSHPublicKey'') ?q4))"
    obtain bg where bg: "trace ?q5 = trace (emit ?req (emit (Call ''sendSSHPublicKey'') ?q4)) @ bg"
      using block_trace_bg by blast
    let ?q6 = "(if SendSSHPublicKey e (InstanceID (cfg q)) (InstanceUser (cfg q)) key (InstanceAZ (cfg q)) = None
                then emit (Slog LevelInfo ''SSH public key sent'') ?q5
                else emit (Slog LevelInfo ''SSH public key sent'')
                       (emit (Slog LevelError ''failed to send SSH public key'') ?q5))"
    have "main_push e q = main_session e ?q6"
      using Some by (simp add: main_push_def sendSSHPublicKey_def Let_def split: option.splits)
    moreover have "trace ?q6 = trace q @ [Slog LevelInfo ''sending SSH public key'',
        Call ''sendSSHPublicKey'', ?third] @
        (bg @ (if SendSSHPublicKey e (InstanceID (cfg q)) (InstanceUser (cfg q)) key (InstanceAZ (cfg q)) = None
               then [] else [Slog LevelError ''failed to send SSH public key'']) @
         [Slog LevelInfo ''SSH public key sent''])"
      using Some bg by simp
    ultimately show ?thesis by blast
  qed
  then obtain q6 evs where q6: "main_push e q = main_session e q6"
      "trace q6 = trace q @ [Slog LevelInfo ''sending SSH public key'', Call ''sendSSHPublicKey'',
                                ?third] @ evs"
    by blast
  obtain evs' where "trace (snd (main_session e q6)) = trace q6 @ evs'"
    using main_session_ext by blast
  then have "newEvents q (main_push e q) =
      [Slog LevelInfo ''sending SSH public key'', Call ''sendSSHPublicKey'', ?third] @ evs @ evs'"
    unfolding q6(1) newEvents_def q6(2) by simp
  then show ?thesis by simp
qed

text \<open>
  A run that reaches the lock returns from \<^verbatim>\<open>main\<close> whatever fails later, and a run
  that returns from \<^verbatim>\<open>main\<close> has reached the lock with nothing deferred and no
  goroutine started.
\<close>

lemma main_session_returns: "fst (main_session e p) = Returned"
  using main_session_shape[of e p] by (auto simp: main_return_sel)

lemma main_push_returns: "fst (main_push e p) = Returned"
  using main_push_shape[of e p] by (auto simp: main_return_sel)

lemma main_lock_returns: "fst (main_lock e p) = Returned"
  by (cases "fst (main_acquire p)")
     (simp_all add: main_lock_acquired main_lock_held main_push_returns main_session_returns)

lemma getInstanceDetails_sel:
  "deferred (snd (getInstanceDetails e p)) = deferred p"
  "timer p = None \<Longrightarrow> timer (snd (getInstanceDetails e p)) = None"
  by (auto simp: getInstanceDetails_def Let_def block_def split: sum.splits option.splits result.splits)

lemma main_cache_reaches_lock:
  assumes "fst (main_cache e p) = Returned" and "deferred p = []" and "timer p = None"
  shows "\<exists>q. main_cache e p = main_lock e q \<and> deferred q = [] \<and> timer q = None"
proof (cases "InstanceID (fst (loadCache (clock p) (fs p) (cfg p))) = []")
  case False
  let ?q = "emit (Slog LevelInfo ''loaded cache: '')
              ((emit (Call ''loadCache'') p)\<lparr>cfg := fst (loadCache (clock p) (fs p) (cfg p))\<rparr>)"
  have "main_cache e p = main_lock e ?q"
    using False by (simp add: main_cache_def Let_def)
  then show ?thesis using assms(2,3) by (intro exI[of _ ?q]) simp
next
  case True
  let ?p2 = "emit (Slog LevelInfo ''instance details not found in cache, fetching from AWS'')
               (emit (Slog LevelInfo ''loaded cache: '')
                 ((emit (Call ''loadCache'') p)\<lparr>cfg := fst (loadCache (clock p) (fs p) (cfg p))\<rparr>))"
  obtain r p3 where g: "getInstanceDetails e ?p2 = (r, p3)"
    by (cases "getInstanceDetails e ?p2")
  have d3: "deferred p3 = []" "timer p3 = None"
    using getInstanceDetails_sel[where e = e and p = ?p2] g assms(2,3) by simp_all
  show ?thesis
  proof (cases r)
    case (Ok u)
    let ?p4 = "emit (Call ''saveCache'') (emit (Slog LevelInfo ''saving instance details to cache'') p3)"
    let ?q = "?p4\<lparr>fs := fst (saveCache (clock ?p4) (fs ?p4) (cfg ?p4))\<rparr>"
    have "main_cache e p = main_lock e ?q"
      using True g Ok by (simp add: main_cache_def Let_def)
    then show ?thesis using d3 by (intro exI[of _ ?q]) simp
  next
    case (Failed err)
    then have "fst (main_cache e p) = Exited 1"
      using True g by (simp add: main_cache_def Let_def exit_process_def)
    then show ?thesis using assms(1) by simp
  next
    case Panic
    then have "fst (main_cache e p) = Panicked"
      using True g by (simp add: main_cache_def Let_def)
    then show ?thesis using assms(1) by simp
  qed
qed

lemma main_reaches_lock:
  assumes "fst (main e fs0) = Returned"
  shows "\<exists>q. main e fs0 = main_lock e q \<and> deferred q = [] \<and> timer q = None"
proof -
  let ?zero = "\<lparr>AppHome = [], AwsProfile = [], Region = [], InstanceName = [],
                  InstanceID = [], InstanceAZ = [], InstanceUser = []\<rparr>"
  let ?p = "\<lparr>cfg = ?zero, fs = fs0, clock = StartTime e, timer = None, deferred = [], trace = []\<rparr>"
  let ?p0 = "?p\<lparr>cfg := ?zero\<lparr>AwsProfile := Args e ! 1, InstanceName := Args e ! 2,
                                    InstanceUser := Args e ! 3,
                                    AppHome := HOME e @ ''/.ssm-ssh-connect''\<rparr>\<rparr>"
  have ok: "length (Args e) = 4" "\<not> MkdirAllFails e"
    using assms by (auto simp: main_def Let_def exit_process_def split: if_splits)
  obtain fs1 where mk: "MkdirAll (StartTime e) fs0 (HOME e @ ''/.ssm-ssh-connect'') = Some fs1"
    using assms ok
    by (cases "MkdirAll (StartTime e) fs0 (HOME e @ ''/.ssm-ssh-connect'')")
       (auto simp: main_def Let_def exit_process_def)
  have ol: "\<not> OpenLogFails e"
    using assms ok mk by (auto simp: main_def Let_def exit_process_def split: if_splits)
  let ?p1 = "if LoadConfigFails e
             then emit (Slog LevelError ''unable to load AWS config'') (?p0\<lparr>fs := fs1\<rparr>)
             else ?p0\<lparr>fs := fs1\<rparr>"
  have m: "main e fs0 = main_cache e ?p1"
    using ok mk ol by (simp add: main_def Let_def)
  have "deferred ?p1 = []" "timer ?p1 = None" by simp_all
  from main_cache_reaches_lock[OF _ this] assms m show ?thesis by simp
qed

text \<open>
  Claim C1. A run reaches the lock with a token file in place (a file, in a directory
  that exists). If the token is older than 50 seconds, the acquisition removes it and
  creates the lock file: it succeeds, and leaves the file system with a token of the
  present instant in the place of the old one; the run registers the two releases and
  goes on with the key push, whose request for the instance, the user, the key and
  the zone of the configuration is the next event after the call (or the error
  record, when the key file cannot be read). If the token is 50 seconds old or
  younger, the acquisition fails and leaves the file system as it was; the run goes
  on with the session bootstrap, and makes no key push at all.
\<close>

theorem lock_acquisition_by_token_age:
  assumes "fs p (lockFileName (cfg p)) = Some f" and "\<not> isDir f"
    and "hasDir (fs p) (lockFileName (cfg p))"
  shows "(50 * Second < clock p - modTime f \<longrightarrow>
            main_acquire p =
              (True,
               p\<lparr>fs := (fs p)(lockFileName (cfg p) \<mapsto> tokenAt (clock p)),
                 trace := trace p @
                   [Slog LevelInfo (''checking lock file '' @ lockFileName (cfg p)),
                    Removed Inline (lockFileName (cfg p)), Created (lockFileName (cfg p))]\<rparr>) \<and>
            main_lock e p =
              main_push e
                (p\<lparr>fs := (fs p)(lockFileName (cfg p) \<mapsto> tokenAt (clock p)),
                   trace := trace p @
                     [Slog LevelInfo (''checking lock file '' @ lockFileName (cfg p)),
                      Removed Inline (lockFileName (cfg p)), Created (lockFileName (cfg p))],
                   deferred := lockFileName (cfg p) # deferred p,
                   timer := Some (clock p + 50 * Second, lockFileName (cfg p))\<rparr>) \<and>
            take 6 (newEvents p (main_lock e p)) =
              [Slog LevelInfo (''checking lock file '' @ lockFileName (cfg p)),
               Removed Inline (lockFileName (cfg p)),
               Created (lockFileName (cfg p)),
               Slog LevelInfo ''sending SSH public key'',
               Call ''sendSSHPublicKey'',
               (case ReadFile (fs p) (HOME e @ ''/.ssh/id_rsa.pub'') of
                  Some key \<Rightarrow>
                    SendSSHPublicKeyReq (InstanceID (cfg p)) (InstanceUser (cfg p)) key
                      (InstanceAZ (cfg p))
                | None \<Rightarrow> Slog LevelError ''failed to send SSH public key'')] \<and>
            filter isAcquire (newEvents p (main_lock e p)) =
              [Removed Inline (lockFileName (cfg p)), Created (lockFileName (cfg p))]) \<and>
         (clock p - modTime f \<le> 50 * Second \<longrightarrow>
            main_acquire p =
              (False, emit (Slog LevelInfo (''checking lock file '' @ lockFileName (cfg p))) p) \<and>
            main_lock e p =
              main_session e (emit (Slog LevelInfo (''checking lock file '' @ lockFileName (cfg p))) p) \<and>
            take 4 (newEvents p (main_lock e p)) =
              Slog LevelInfo (''checking lock file '' @ lockFileName (cfg p)) # bootstrapOf (cfg p) \<and>
            filter isKeyPush (newEvents p (main_lock e p)) = [] \<and>
            filter isAcquire (newEvents p (main_lock e p)) = [])"
proof (intro conjI impI)
  let ?lock = "lockFileName (cfg p)"
  let ?acq = "[Slog LevelInfo (''checking lock file '' @ ?lock), Removed Inline ?lock, Created ?lock]"
  let ?p3 = "p\<lparr>fs := (fs p)(?lock \<mapsto> tokenAt (clock p)),
               trace := trace p @ ?acq,
               deferred := ?lock # deferred p,
               timer := Some (clock p + 50 * Second, ?lock)\<rparr>"
  assume age: "50 * Second < clock p - modTime f"
  have st: "isStale (clock p) (fs p) ?lock"
    using assms(1) age by (simp add: isStale_age)
  show a: "main_acquire p = (True, p\<lparr>fs := (fs p)(?lock \<mapsto> tokenAt (clock p)), trace := trace p @ ?acq\<rparr>)"
    using assms age by (rule main_acquire_stale)
  then have ok: "fst (main_acquire p)" by simp
  show m: "main_lock e p = main_push e ?p3"
    using main_lock_acquired[OF ok, of e] unfolding a by simp
  have v: "newEvents p (main_lock e p) = ?acq @ newEvents ?p3 (main_push e ?p3)"
    by (rule newEvents_via[where F = "main_push e", OF m _ main_push_ext]) simp
  have rf: "ReadFile (fs ?p3) (HOME e @ ''/.ssh/id_rsa.pub'') =
            ReadFile (fs p) (HOME e @ ''/.ssh/id_rsa.pub'')"
    using lock_is_no_key[of "cfg p" "HOME e"] by (simp add: ReadFile_def)
  show "take 6 (newEvents p (main_lock e p)) =
              [Slog LevelInfo (''checking lock file '' @ ?lock), Removed Inline ?lock, Created ?lock,
               Slog LevelInfo ''sending SSH public key'',
               Call ''sendSSHPublicKey'',
               (case ReadFile (fs p) (HOME e @ ''/.ssh/id_rsa.pub'') of
                  Some key \<Rightarrow>
                    SendSSHPublicKeyReq (InstanceID (cfg p)) (InstanceUser (cfg p)) key
                      (InstanceAZ (cfg p))
                | None \<Rightarrow> Slog LevelError ''failed to send SSH public key'')]"
  proof (cases "ReadFile (fs p) (HOME e @ ''/.ssh/id_rsa.pub'')")
    case None
    then show ?thesis using main_push_head[of ?p3 e] rf unfolding v by simp
  next
    case (Some key)
    then show ?thesis using main_push_head[of ?p3 e] rf unfolding v by simp
  qed
  from main_lock_new_acquired[OF ok, of e] obtain pre evs where
    n: "newEvents p (main_lock e p) =
           Slog LevelInfo (''checking lock file '' @ lockFileName (cfg p)) #
           (if isStale (clock p) (fs p) (lockFileName (cfg p))
            then [Removed Inline (lockFileName (cfg p))] else []) @
           [Created (lockFileName (cfg p)), Slog LevelInfo ''sending SSH public key'',
            Call ''sendSSHPublicKey''] @ pre @
           [Slog LevelInfo ''SSH public key sent''] @ bootstrapOf (cfg p) @ evs @
           [Slog LevelInfo ''session completed''] @
           map (Removed Deferred) (lockFileName (cfg p) # deferred p)"
       "list_all (\<lambda>ev. pushEvent ev \<or> isBackground ev) pre"
       "list_all (\<lambda>ev. helperEvent ev \<or> isBackground ev) evs"
    by blast
  have x: "filter isAcquire pre = []" using n(2) by (rule filter_none) (auto simp: kinds_acquire)
  have y: "filter isAcquire evs = []" using n(3) by (rule filter_none) (auto simp: kinds_acquire)
  show "filter isAcquire (newEvents p (main_lock e p)) =
              [Removed Inline (lockFileName (cfg p)), Created (lockFileName (cfg p))]"
    unfolding n(1) using st x y by (simp add: bootstrapOf_def filter_deferred)
next
  assume age: "clock p - modTime f \<le> 50 * Second"
  have st: "\<not> isStale (clock p) (fs p) (lockFileName (cfg p))"
    using assms(1) age by (simp add: isStale_age)
  show a: "main_acquire p =
      (False, emit (Slog LevelInfo (''checking lock file '' @ lockFileName (cfg p))) p)"
    using assms(1) age by (rule main_acquire_fresh)
  then have no: "\<not> fst (main_acquire p)" by simp
  show "main_lock e p =
      main_session e (emit (Slog LevelInfo (''checking lock file '' @ lockFileName (cfg p))) p)"
    using main_lock_held[OF no, of e] unfolding a by simp
  from main_lock_new_held[OF no, of e] obtain evs where
    n: "newEvents p (main_lock e p) =
           Slog LevelInfo (''checking lock file '' @ lockFileName (cfg p)) #
           (if isStale (clock p) (fs p) (lockFileName (cfg p))
            then [Removed Inline (lockFileName (cfg p))] else []) @
           bootstrapOf (cfg p) @ evs @ [Slog LevelInfo ''session completed''] @
           map (Removed Deferred) (deferred p)"
       "list_all (\<lambda>ev. helperEvent ev \<or> isBackground ev) evs"
    by blast
  have x: "filter isAcquire evs = []" using n(2) by (rule filter_none) (auto simp: kinds_acquire)
  have y: "filter isKeyPush evs = []" using n(2) by (rule filter_none) (auto simp: kinds_keypush)
  show "take 4 (newEvents p (main_lock e p)) =
              Slog LevelInfo (''checking lock file '' @ lockFileName (cfg p)) # bootstrapOf (cfg p)"
    unfolding n(1) using st by (simp add: bootstrapOf_def)
  show "filter isKeyPush (newEvents p (main_lock e p)) = []"
    unfolding n(1) using st y by (simp add: bootstrapOf_def filter_deferred)
  show "filter isAcquire (newEvents p (main_lock e p)) = []"
    unfolding n(1) using st x by (simp add: bootstrapOf_def filter_deferred)
qed

theorem lock_acquisition_by_token_age_witness:
  "fs (atLock staleFiles) (lockFileName (cfg (atLock staleFiles))) =
     Some (regular (Raw []) 30000000000) \<and>
   \<not> isDir (regular (Raw []) 30000000000) \<and>
   hasDir (fs (atLock staleFiles)) (lockFileName (cfg (atLock staleFiles))) \<and>
   50 * Second < clock (atLock staleFiles) - modTime (regular (Raw []) 30000000000) \<and>
   main_acquire (atLock staleFiles) =
     (True,
      (atLock staleFiles)
        \<lparr>fs := (fs (atLock staleFiles))
                 (lockFileName (cfg (atLock staleFiles)) \<mapsto> tokenAt (clock (atLock staleFiles))),
         trace := trace (atLock staleFiles) @
           [Slog LevelInfo (''checking lock file '' @ lockFileName (cfg (atLock staleFiles))),
            Removed Inline (lockFileName (cfg (atLock staleFiles))),
            Created (lockFileName (cfg (atLock staleFiles)))]\<rparr>) \<and>
   take 6 (newEvents (atLock staleFiles) (main_lock quietEnv (atLock staleFiles))) =
     [Slog LevelInfo (''checking lock file '' @ lockFileName (cfg (atLock staleFiles))),
      Removed Inline (lockFileName (cfg (atLock staleFiles))),
      Created (lockFileName (cfg (atLock staleFiles))),
      Slog LevelInfo ''sending SSH public key'',
      Call ''sendSSHPublicKey'',
      SendSSHPublicKeyReq ''i-0abc'' ''ubuntu'' (Raw ''ssh-rsa AAAA'') ''us-east-1a''] \<and>
   fs (atLock freshFiles) (lockFileName (cfg (atLock freshFiles))) =
     Some (regular (Raw []) 95000000000) \<and>
   \<not> isDir (regular (Raw []) 95000000000) \<and>
   hasDir (fs (atLock freshFiles)) (lockFileName (cfg (atLock freshFiles))) \<and>
   clock (atLock freshFiles) - modTime (regular (Raw []) 95000000000) \<le> 50 * Second \<and>
   main_acquire (atLock freshFiles) =
     (False,
      emit (Slog LevelInfo (''checking lock file '' @ lockFileName (cfg (atLock freshFiles))))
        (atLock freshFiles)) \<and>
   take 4 (newEvents (atLock freshFiles) (main_lock quietEnv (atLock freshFiles))) =
     Slog LevelInfo (''checking lock file '' @ lockFileName (cfg (atLock freshFiles))) #
     bootstrapOf (cfg (atLock freshFiles)) \<and>
   filter isKeyPush (newEvents (atLock freshFiles) (main_lock quietEnv (atLock freshFiles))) = []"
proof -
  have h1: "fs (atLock staleFiles) (lockFileName (cfg (atLock staleFiles))) =
      Some (regular (Raw []) 30000000000)"
    by (simp add: atLock_def web1_paths staleFiles_def)
  have r1: "\<not> isDir (regular (Raw []) 30000000000)" by (simp add: regular_def)
  have d1: "hasDir (fs (atLock staleFiles)) (lockFileName (cfg (atLock staleFiles)))"
    by (simp add: atLock_def web1_paths staleFiles_def hasDir_def parentDir_def web1_lock_def
        homeFiles_def directory_def)
  have a1: "50 * Second < clock (atLock staleFiles) - modTime (regular (Raw []) 30000000000)"
    by (simp add: atLock_def regular_def Second_def)
  have k1: "ReadFile (fs (atLock staleFiles)) (HOME quietEnv @ ''/.ssh/id_rsa.pub'') =
      Some (Raw ''ssh-rsa AAAA'')"
    by (simp add: ReadFile_def atLock_def staleFiles_def homeFiles_def web1_lock_def regular_def
        quietEnv_def)
  have c1: "InstanceID (cfg (atLock staleFiles)) = ''i-0abc''"
    "InstanceUser (cfg (atLock staleFiles)) = ''ubuntu''"
    "InstanceAZ (cfg (atLock staleFiles)) = ''us-east-1a''"
    by (simp_all add: atLock_def web1_def)
  have h2: "fs (atLock freshFiles) (lockFileName (cfg (atLock freshFiles))) =
      Some (regular (Raw []) 95000000000)"
    by (simp add: atLock_def web1_paths freshFiles_def)
  have r2: "\<not> isDir (regular (Raw []) 95000000000)" by (simp add: regular_def)
  have d2: "hasDir (fs (atLock freshFiles)) (lockFileName (cfg (atLock freshFiles)))"
    by (simp add: atLock_def web1_paths freshFiles_def hasDir_def parentDir_def web1_lock_def
        homeFiles_def directory_def)
  have a2: "clock (atLock freshFiles) - modTime (regular (Raw []) 95000000000) \<le> 50 * Second"
    by (simp add: atLock_def regular_def Second_def)
  show ?thesis
    using h1 r1 d1 a1 h2 r2 d2 a2
      lock_acquisition_by_token_age [OF h1 r1 d1, of quietEnv]
      lock_acquisition_by_token_age [OF h2 r2 d2, of quietEnv]
    unfolding k1 c1 option.case
    by blast
qed

lemma takeWhile_stop:
  "(\<And>x. x \<in> set xs \<Longrightarrow> P x) \<Longrightarrow> \<not> P y \<Longrightarrow> takeWhile P (xs @ y # ys) = xs"
  by (simp add: takeWhile_append2)

text \<open>
  Claim C7. Every run that reaches the lock makes the bootstrap request exactly once,
  for the instance of its configuration, whether the key push is skipped, succeeds or
  fails; a run that reaches the key push does so too, and when the push fails the
  failure is logged at error level before the bootstrap is called.
\<close>

theorem key_push_failure_is_not_fatal:
  "filter isBootstrap (newEvents p (main_lock e p)) =
     [Call ''startSSMSessionWithPlugin'',
      StartSessionReq (InstanceID (cfg p)) ''AWS-StartSSHSession'' [(''portNumber'', [''22''])]] \<and>
   filter isBootstrap (newEvents p (main_push e p)) =
     [Call ''startSSMSessionWithPlugin'',
      StartSessionReq (InstanceID (cfg p)) ''AWS-StartSSHSession'' [(''portNumber'', [''22''])]] \<and>
   (fst (sendSSHPublicKey e p) \<noteq> None \<longrightarrow>
      Slog LevelError ''failed to send SSH public key'' \<in>
        set (eventsBefore (Call ''startSSMSessionWithPlugin'') (newEvents p (main_push e p))))"
proof (intro conjI impI)
  show "filter isBootstrap (newEvents p (main_lock e p)) =
     [Call ''startSSMSessionWithPlugin'',
      StartSessionReq (InstanceID (cfg p)) ''AWS-StartSSHSession'' [(''portNumber'', [''22''])]]"
  proof (cases "fst (main_acquire p)")
    case True
    from main_lock_new_acquired[OF True, of e] obtain pre evs where
      n: "newEvents p (main_lock e p) =
           Slog LevelInfo (''checking lock file '' @ lockFileName (cfg p)) #
           (if isStale (clock p) (fs p) (lockFileName (cfg p))
            then [Removed Inline (lockFileName (cfg p))] else []) @
           [Created (lockFileName (cfg p)), Slog LevelInfo ''sending SSH public key'',
            Call ''sendSSHPublicKey''] @ pre @
           [Slog LevelInfo ''SSH public key sent''] @ bootstrapOf (cfg p) @ evs @
           [Slog LevelInfo ''session completed''] @
           map (Removed Deferred) (lockFileName (cfg p) # deferred p)"
       "list_all (\<lambda>ev. pushEvent ev \<or> isBackground ev) pre"
       "list_all (\<lambda>ev. helperEvent ev \<or> isBackground ev) evs"
      by blast
    have a: "filter isBootstrap pre = []" using n(2) by (rule filter_none) (auto simp: kinds_bootstrap)
    have b: "filter isBootstrap evs = []" using n(3) by (rule filter_none) (auto simp: kinds_bootstrap)
    show ?thesis unfolding n(1) using a b by (simp add: bootstrapOf_def filter_deferred)
  next
    case False
    from main_lock_new_held[OF False, of e] obtain evs where
      n: "newEvents p (main_lock e p) =
           Slog LevelInfo (''checking lock file '' @ lockFileName (cfg p)) #
           (if isStale (clock p) (fs p) (lockFileName (cfg p))
            then [Removed Inline (lockFileName (cfg p))] else []) @
           bootstrapOf (cfg p) @ evs @ [Slog LevelInfo ''session completed''] @
           map (Removed Deferred) (deferred p)"
       "list_all (\<lambda>ev. helperEvent ev \<or> isBackground ev) evs"
      by blast
    have b: "filter isBootstrap evs = []" using n(2) by (rule filter_none) (auto simp: kinds_bootstrap)
    show ?thesis unfolding n(1) using b by (simp add: bootstrapOf_def filter_deferred)
  qed
next
  from main_push_new[of p e] obtain pre evs where
    n: "newEvents p (main_push e p) =
           [Slog LevelInfo ''sending SSH public key'', Call ''sendSSHPublicKey''] @ pre @
           (if fst (sendSSHPublicKey e p) = None then []
            else [Slog LevelError ''failed to send SSH public key'']) @
           [Slog LevelInfo ''SSH public key sent''] @ bootstrapOf (cfg p) @ evs @
           [Slog LevelInfo ''session completed''] @ map (Removed Deferred) (deferred p)"
       "list_all (\<lambda>ev. pushEvent ev \<or> isBackground ev) pre"
       "list_all (\<lambda>ev. helperEvent ev \<or> isBackground ev) evs"
    by blast
  have a: "filter isBootstrap pre = []" using n(2) by (rule filter_none) (auto simp: kinds_bootstrap)
  have b: "filter isBootstrap evs = []" using n(3) by (rule filter_none) (auto simp: kinds_bootstrap)
  show "filter isBootstrap (newEvents p (main_push e p)) =
     [Call ''startSSMSessionWithPlugin'',
      StartSessionReq (InstanceID (cfg p)) ''AWS-StartSSHSession'' [(''portNumber'', [''22''])]]"
    unfolding n(1) using a b by (simp add: bootstrapOf_def filter_deferred)
  assume fail: "fst (sendSSHPublicKey e p) \<noteq> None"
  let ?head = "[Slog LevelInfo ''sending SSH public key'', Call ''sendSSHPublicKey''] @ pre @
           [Slog LevelError ''failed to send SSH public key'',
            Slog LevelInfo ''SSH public key sent'', Slog LevelInfo ''starting SSM session'']"
  have pre: "x \<in> set pre \<Longrightarrow> x \<noteq> Call ''startSSMSessionWithPlugin''" for x
    using n(2) by (auto simp: list_all_iff)
  let ?rest = "StartSessionReq (InstanceID (cfg p)) ''AWS-StartSSHSession'' [(''portNumber'', [''22''])] #
       evs @ [Slog LevelInfo ''session completed''] @ map (Removed Deferred) (deferred p)"
  have eq: "newEvents p (main_push e p) = ?head @ Call ''startSSMSessionWithPlugin'' # ?rest"
    unfolding n(1) using fail by (simp add: bootstrapOf_def)
  have hd: "\<And>x. x \<in> set ?head \<Longrightarrow> x \<noteq> Call ''startSSMSessionWithPlugin''"
    using pre by auto
  have "eventsBefore (Call ''startSSMSessionWithPlugin'')
          (?head @ Call ''startSSMSessionWithPlugin'' # ?rest) = ?head"
    unfolding eventsBefore_def by (rule takeWhile_stop) (use hd in blast, simp)
  then have "eventsBefore (Call ''startSSMSessionWithPlugin'') (newEvents p (main_push e p)) = ?head"
    by (simp only: eq)
  then show "Slog LevelError ''failed to send SSH public key'' \<in>
        set (eventsBefore (Call ''startSSMSessionWithPlugin'') (newEvents p (main_push e p)))"
    by simp
qed

theorem key_push_failure_is_not_fatal_witness:
  "fst (sendSSHPublicKey pushDeniedEnv (atLock homeFiles)) \<noteq> None \<and>
   Slog LevelError ''failed to send SSH public key'' \<in>
     set (eventsBefore (Call ''startSSMSessionWithPlugin'')
            (newEvents (atLock homeFiles) (main_push pushDeniedEnv (atLock homeFiles)))) \<and>
   filter isBootstrap (newEvents (atLock homeFiles) (main_push pushDeniedEnv (atLock homeFiles))) =
     [Call ''startSSMSessionWithPlugin'',
      StartSessionReq (InstanceID (cfg (atLock homeFiles))) ''AWS-StartSSHSession''
        [(''portNumber'', [''22''])]]"
proof -
  have h: "fst (sendSSHPublicKey pushDeniedEnv (atLock homeFiles)) \<noteq> None"
    by (simp add: sendSSHPublicKey_def Let_def ReadFile_def atLock_def homeFiles_def regular_def
        pushDeniedEnv_def quietEnv_def)
  show ?thesis
    using h key_push_failure_is_not_fatal [of "atLock homeFiles" pushDeniedEnv]
    by blast
qed


lemma MkdirAll_there:
  "path \<noteq> [] \<Longrightarrow> (case fsys path of None \<Rightarrow> False | Some f \<Rightarrow> isDir f) \<Longrightarrow>
     MkdirAll now fsys path = Some fsys"
  by (cases "fsys path") (simp_all add: MkdirAll.simps[of now fsys path])

lemmas run_defs = main_def main_cache_def main_lock_def main_acquire_def main_push_def
  main_session_def main_return_def
  exit_process_def startSSMSessionWithPlugin_def sendSSHPublicKey_def getInstanceDetails_def
  assignInstance_def loadCache_def saveCache_def cacheFile_def lockFileName_def Stat_def ReadFile_def
  WriteFile_def Remove_def OpenFile_EXCL_CREATE_def MkdirAll_there hasDir_def parentDir_def
  isFile_def isStale_def Since_def maxDuration_def
  minDuration_def Second_def Hour_def emit_def block_def findPlugin_def commonPaths_def LookPath_def
  ToString_def Marshal_def coerceUTF8_ascii coerceUTF8_Nil byte_def json_fields_eq find_field_def
  saveError_def directory_def Let_def


lemma kinds_helper: "isBackground ev \<Longrightarrow> \<not> helperEvent ev"
  by (cases ev rule: helperEvent.cases) auto

lemma startSSM_broker_failure:
  assumes "StartSession e (InstanceID (cfg p)) ''AWS-StartSSHSession'' [(''portNumber'', [''22''])] = Inl err"
  shows "startSSMSessionWithPlugin e p =
           (Some (StartSessionFailed err),
            block (StartSessionTime e)
              (emit (StartSessionReq (InstanceID (cfg p)) ''AWS-StartSSHSession'' [(''portNumber'', [''22''])])
                 (emit (Call ''startSSMSessionWithPlugin'') p)))"
  using assms by (simp add: startSSMSessionWithPlugin_def Let_def)

text \<open>
  Claim C8, as amended. When the call to the session broker fails, the bootstrap
  returns the error, the helper is neither looked up nor started, and \<^verbatim>\<open>main\<close> logs
  the failure at error level; besides that the run only logs, and it ends by a normal
  return from \<^verbatim>\<open>main\<close>, without a session.
\<close>

theorem broker_failure_ends_the_run_without_session:
  assumes "StartSession e (InstanceID (cfg p)) ''AWS-StartSSHSession'' [(''portNumber'', [''22''])] = Inl err"
  shows "fst (startSSMSessionWithPlugin e p) = Some (StartSessionFailed err) \<and>
         filter isLaunch (newEvents p (main_session e p)) = [] \<and>
         Slog LevelError ''Failed to start SSM session'' \<in> set (newEvents p (main_session e p)) \<and>
         filter helperEvent (newEvents p (main_session e p)) =
           [Slog LevelInfo ''starting SSM session'',
            Slog LevelError ''Failed to start SSM session'',
            Slog LevelInfo ''session completed''] \<and>
         fst (main_session e p) = Returned"
proof -
  let ?p1 = "emit (Slog LevelInfo ''starting SSM session'') p"
  let ?req = "StartSessionReq (InstanceID (cfg p)) ''AWS-StartSSHSession'' [(''portNumber'', [''22''])]"
  let ?b = "block (StartSessionTime e) (emit ?req (emit (Call ''startSSMSessionWithPlugin'') ?p1))"
  have a: "StartSession e (InstanceID (cfg ?p1)) ''AWS-StartSSHSession'' [(''portNumber'', [''22''])] = Inl err"
    using assms by simp
  have s: "startSSMSessionWithPlugin e ?p1 = (Some (StartSessionFailed err), ?b)"
    using startSSM_broker_failure[OF a] by simp
  have m: "main_session e p =
             main_return (emit (Slog LevelInfo ''session completed'')
                            (emit (Slog LevelError ''Failed to start SSM session'') ?b))"
    using s by (simp add: main_session_def)
  obtain bg where bg: "trace ?b = trace (emit ?req (emit (Call ''startSSMSessionWithPlugin'') ?p1)) @ bg"
      "list_all isBackground bg"
    using block_trace_bg by blast
  have "trace (snd (main_session e p)) = trace p @
          (bootstrapOf (cfg p) @ bg @ [Slog LevelError ''Failed to start SSM session'',
             Slog LevelInfo ''session completed''] @ map (Removed Deferred) (deferred p))"
    unfolding m main_return_trace using bg(1) by (simp add: bootstrapOf_def)
  from newEvents_eq[OF this] have n: "newEvents p (main_session e p) =
          bootstrapOf (cfg p) @ bg @ [Slog LevelError ''Failed to start SSM session'',
             Slog LevelInfo ''session completed''] @ map (Removed Deferred) (deferred p)" .
  have l: "filter isLaunch bg = []" using bg(2) by (rule filter_none) (simp add: kinds_launch)
  have k: "filter helperEvent bg = []" using bg(2) by (rule filter_none) (simp add: kinds_helper)
  have d: "filter helperEvent (map (Removed Deferred) ps) = []" for ps
    by (induction ps) auto
  show ?thesis
    unfolding n using l k d startSSM_broker_failure[OF assms]
    by (simp add: bootstrapOf_def filter_deferred m main_return_sel)
qed

theorem broker_failure_ends_the_run_without_session_witness:
  "StartSession brokerDownEnv (InstanceID (cfg (atLock homeFiles))) ''AWS-StartSSHSession''
     [(''portNumber'', [''22''])] = Inl ''AccessDeniedException'' \<and>
   fst (startSSMSessionWithPlugin brokerDownEnv (atLock homeFiles)) =
     Some (StartSessionFailed ''AccessDeniedException'') \<and>
   filter isLaunch (newEvents (atLock homeFiles) (main_session brokerDownEnv (atLock homeFiles))) = [] \<and>
   fst (main_session brokerDownEnv (atLock homeFiles)) = Returned"
proof -
  have h: "StartSession brokerDownEnv (InstanceID (cfg (atLock homeFiles))) ''AWS-StartSSHSession''
     [(''portNumber'', [''22''])] = Inl ''AccessDeniedException''"
    by (simp add: brokerDownEnv_def quietEnv_def)
  show ?thesis
    using h broker_failure_ends_the_run_without_session [OF h] by blast
qed

text \<open>
  Claim C8 as stated has the run fail as a whole. A run of the whole program in which
  the broker refuses the request returns from \<^verbatim>\<open>main\<close> as a successful run does.
\<close>

theorem broker_failure_run_returns_normally:
  "StartSession brokerDownEnv ''i-0abc'' ''AWS-StartSSHSession'' [(''portNumber'', [''22''])] =
     Inl ''AccessDeniedException'' \<and>
   StartSessionReq ''i-0abc'' ''AWS-StartSSHSession'' [(''portNumber'', [''22''])] \<in>
     set (trace (snd (main brokerDownEnv homeFiles))) \<and>
   \<not> runFailed (fst (main brokerDownEnv homeFiles))"
  by (simp add: run_defs runFailed_def brokerDownEnv_def quietEnv_def homeFiles_def regular_def
      oneInstance_def cong: let_weak_cong)

text \<open>
  Claim C4, at a malformed cache file. \<^verbatim>\<open>loadCache\<close> returns an error for the file
  of \<open>brokenCacheFiles\<close>, as it does for a missing file, but it has stored the instance
  id by then; \<^verbatim>\<open>main\<close> drops the error, finds an instance id, and does not resolve:
  the run pushes the key with an empty availability zone, where the run on a missing
  file resolves first.
\<close>

theorem malformed_cache_is_not_a_miss:
  "loadCache 100000000000 brokenCacheFiles web1_key =
     (web1_key\<lparr>InstanceID := ''i-0abc''\<rparr>, Some (UnmarshalFailed UnmarshalTypeError)) \<and>
   loadCache 100000000000 homeFiles web1_key = (web1_key, Some CacheDoesNotExist) \<and>
   Call ''getInstanceDetails'' \<in> set (trace (snd (main quietEnv homeFiles))) \<and>
   Call ''getInstanceDetails'' \<notin> set (trace (snd (main quietEnv brokenCacheFiles))) \<and>
   SendSSHPublicKeyReq ''i-0abc'' ''ubuntu'' (Raw ''ssh-rsa AAAA'') [] \<in>
     set (trace (snd (main quietEnv brokenCacheFiles)))"
  by (simp add: run_defs brokenCacheFiles_def web1_cache_def web1_key_def web1_def quietEnv_def
      homeFiles_def regular_def oneInstance_def cong: let_weak_cong)

text \<open>
  Claim C9, at a helper that only the search path finds. The first candidate is an
  unqualified name, which \<^verbatim>\<open>os.Stat\<close> takes as a path from the working directory:
  the helper that \<^verbatim>\<open>exec.Command\<close> would find through \<^verbatim>\<open>$PATH\<close> is not found, and
  the bootstrap fails.
\<close>

theorem helper_on_search_path_is_not_found:
  "LookPath pathOnlyEnv pathOnlyFiles ''session-manager-plugin'' =
     Some ''/home/u/bin/session-manager-plugin'' \<and>
   fst (startSSMSessionWithPlugin pathOnlyEnv (atLock pathOnlyFiles)) = Some PluginNotFound"
  by (simp add: startSSMSessionWithPlugin_def LookPath_def isFile_def findPlugin_def commonPaths_def
      Stat_def Let_def block_def emit_def pathOnlyEnv_def pathOnlyFiles_def quietEnv_def atLock_def
      regular_def cong: let_weak_cong)


lemma kinds_deferred:
  "pushEvent ev \<Longrightarrow> \<not> isDeferred ev"
  "helperEvent ev \<Longrightarrow> \<not> isDeferred ev"
  "isBackground ev \<Longrightarrow> \<not> isDeferred ev"
  by (cases ev rule: isDeferred.cases; simp)+

lemma kinds_background:
  "pushEvent ev \<Longrightarrow> \<not> isBackground ev"
  "helperEvent ev \<Longrightarrow> \<not> isBackground ev"
  "sessionEvent ev \<Longrightarrow> \<not> isBackground ev"
  by (cases ev rule: isBackground.cases; simp)+

lemma filter_only:
  "list_all (\<lambda>ev. Q ev \<or> P ev) xs \<Longrightarrow> (\<And>ev. Q ev \<Longrightarrow> \<not> P ev) \<Longrightarrow> filter (\<lambda>ev. \<not> P ev) xs = filter Q xs"
  by (induction xs) auto

lemma main_push_timer:
  assumes t: "timer q = Some (D, L)" and c: "clock q < D"
  shows "\<exists>pre evs. newEvents q (main_push e q) =
           [Slog LevelInfo ''sending SSH public key'', Call ''sendSSHPublicKey''] @ pre @
           [Slog LevelInfo ''SSH public key sent''] @ bootstrapOf (cfg q) @ evs @
           [Slog LevelInfo ''session completed''] @ map (Removed Deferred) (deferred q) \<and>
         list_all (\<lambda>ev. pushEvent ev \<or> isBackground ev) pre \<and>
         list_all (\<lambda>ev. helperEvent ev \<or> isBackground ev) evs \<and>
         filter isBackground (pre @ evs) =
           (if D \<le> clock (snd (main_push e q)) then [Removed Background L] else [])"
proof -
  from main_push_shape[of e q] obtain q' pre0 evs where
    q': "main_push e q = main_return q'" "steps pushOrSession q q'"
      "trace q' = trace q @ [Slog LevelInfo ''sending SSH public key'', Call ''sendSSHPublicKey''] @ pre0 @
        (if fst (sendSSHPublicKey e q) = None then []
         else [Slog LevelError ''failed to send SSH public key'']) @
        [Slog LevelInfo ''SSH public key sent''] @ bootstrapOf (cfg q) @ evs @
        [Slog LevelInfo ''session completed'']"
      "list_all (\<lambda>ev. pushEvent ev \<or> isBackground ev) pre0"
      "list_all (\<lambda>ev. helperEvent ev \<or> isBackground ev) evs"
    by blast
  let ?pre = "pre0 @ (if fst (sendSSHPublicKey e q) = None then []
            else [Slog LevelError ''failed to send SSH public key''])"
  have pre: "list_all (\<lambda>ev. pushEvent ev \<or> isBackground ev) ?pre"
    using q'(4) by simp
  have d: "deferred q' = deferred q" using steps_frame[OF q'(2)] by simp
  have tr: "trace (snd (main_push e q)) = trace q @
          ([Slog LevelInfo ''sending SSH public key'', Call ''sendSSHPublicKey''] @ ?pre @
           [Slog LevelInfo ''SSH public key sent''] @ bootstrapOf (cfg q) @ evs @
           [Slog LevelInfo ''session completed''] @ map (Removed Deferred) (deferred q))"
    using q'(1,3) d by (simp add: main_return_trace)
  have armed: "armed q" using t c by (simp add: armed_def)
  have "follows q q'"
    using q'(2) armed by (rule steps_follows) (auto simp: pushOrSession_def kinds_background)
  then have st: "filter isBackground (trace q') = snd (settle (clock q') q)"
    by (simp add: follows_def split: prod.splits) (metis snd_conv)
  have "filter isBackground (trace q') = filter isBackground (trace q) @ filter isBackground (?pre @ evs)"
    unfolding q'(3) by (simp add: bootstrapOf_def)
  then have bg: "filter isBackground (?pre @ evs) =
      (if D \<le> clock q' then [Removed Background L] else [])"
    using st t by (auto simp: settle_def split: if_splits)
  have ck: "clock (snd (main_push e q)) = clock q'"
    using q'(1) by (simp add: main_return_sel)
  show ?thesis
    apply (rule exI[of _ ?pre], rule exI[of _ evs])
    apply (intro conjI newEvents_eq[OF tr] pre q'(5))
    apply (simp only: bg ck)
    done
qed

text \<open>
  A file is only ever removed by the run: where a file is when the key push starts,
  there is that file or nothing later, and nothing after the deferred removal.
\<close>

lemma steps_file:
  assumes "steps P q q'" and "fs q L = Some f" and "\<not> isDir f"
  shows "fs q' L = None \<or> fs q' L = Some f"
  using assms
proof (induction rule: steps.induct)
  case refl
  then show ?case by simp
next
  case (emit q' ev)
  then show ?case by simp
next
  case (block q' d)
  then have IH: "fs q' L = None \<or> fs q' L = Some f" by simp
  have r: "Remove (fs q') path L = None \<or> Remove (fs q') path L = Some f" for path
    using IH block.prems(2) by (cases "path = L") (auto simp: Remove_def split: option.splits)
  show ?case
    using IH r by (auto simp: block_def Let_def split: option.splits)
qed

lemma main_push_releases:
  assumes "deferred q = [L]" and "fs q L = Some f" and "\<not> isDir f"
  shows "fs (snd (main_push e q)) L = None"
proof -
  from main_push_shape[of e q] obtain q' where
    q': "main_push e q = main_return q'" "steps pushOrSession q q'"
    by blast
  have d: "deferred q' = [L]" using steps_frame[OF q'(2)] assms(1) by simp
  have "fs q' L = None \<or> fs q' L = Some f"
    using q'(2) assms(2,3) by (rule steps_file)
  then have "Remove (fs q') L L = None"
    using assms(3) by (auto simp: Remove_def)
  then show ?thesis
    using q'(1) d by (simp add: main_return_sel)
qed


lemma created_means_acquired:
  assumes "Created (lockFileName (cfg p)) \<in> set (newEvents p (main_lock e p))"
  shows "fst (main_acquire p)"
proof (rule ccontr)
  assume no: "\<not> fst (main_acquire p)"
  from main_lock_new_held[OF no, of e] obtain evs where
    n: "newEvents p (main_lock e p) =
           Slog LevelInfo (''checking lock file '' @ lockFileName (cfg p)) #
           (if isStale (clock p) (fs p) (lockFileName (cfg p))
            then [Removed Inline (lockFileName (cfg p))] else []) @
           bootstrapOf (cfg p) @ evs @ [Slog LevelInfo ''session completed''] @
           map (Removed Deferred) (deferred p)"
       "list_all (\<lambda>ev. helperEvent ev \<or> isBackground ev) evs"
    by blast
  have "Created (lockFileName (cfg p)) \<notin> set evs"
    using n(2) by (auto simp: list_all_iff)
  then have "Created (lockFileName (cfg p)) \<notin> set (newEvents p (main_lock e p))"
    unfolding n(1) by (auto simp: bootstrapOf_def)
  then show False using assms by simp
qed

text \<open>
  Claim C3, as amended. After a successful acquisition (the run has created the lock
  file) there are two releases. The explicit one is deferred to the return from
  \<^verbatim>\<open>main\<close>: it happens once, as the last event of the run, right after the session
  has ended, whether the key push succeeded or failed. The background one happens if
  and only if the run is still going 50 seconds after the acquisition, once, and then
  before the explicit one. After the run the lock file is gone, and removing a file
  that is gone changes nothing.
\<close>

theorem lock_release_paths:
  assumes d: "deferred p = []"
    and a: "Created (lockFileName (cfg p)) \<in> set (newEvents p (main_lock e p))"
  shows "last (newEvents p (main_lock e p)) = Removed Deferred (lockFileName (cfg p)) \<and>
         last (butlast (newEvents p (main_lock e p))) = Slog LevelInfo ''session completed'' \<and>
         filter isDeferred (newEvents p (main_lock e p)) = [Removed Deferred (lockFileName (cfg p))] \<and>
         filter isBackground (newEvents p (main_lock e p)) =
           (if clock p + 50 * Second \<le> clock (snd (main_lock e p))
            then [Removed Background (lockFileName (cfg p))] else []) \<and>
         fs (snd (main_lock e p)) (lockFileName (cfg p)) = None \<and>
         Remove (Remove fsys path) path = Remove fsys path \<and>
         (fsys path = None \<longrightarrow> Remove fsys path = fsys)"
proof -
  let ?lock = "lockFileName (cfg p)"
  let ?D = "clock p + 50 * Second"
  from created_means_acquired[OF a]
  have acq: "fst (main_acquire p)" .
  let ?acq = "Slog LevelInfo (''checking lock file '' @ ?lock) #
           (if isStale (clock p) (fs p) ?lock then [Removed Inline ?lock] else []) @ [Created ?lock]"
  define p3 where "p3 = (snd (main_acquire p))\<lparr>deferred := ?lock # deferred p, timer := Some (?D, ?lock)\<rparr>"
  have p3: "main_lock e p = main_push e p3" "cfg p3 = cfg p" "clock p3 = clock p"
      "deferred p3 = [?lock]" "timer p3 = Some (?D, ?lock)" "trace p3 = trace p @ ?acq"
    using main_lock_acquired[OF acq, of e] main_acquire_sel[of p] acq d
    by (simp_all add: p3_def)
  have tok: "fs p3 ?lock = Some (tokenAt (clock p))" "\<not> isDir (tokenAt (clock p))"
    using main_acquire_token[OF acq] by (simp_all add: p3_def tokenAt_def)
  have c: "clock p3 < ?D" using p3(3) by (simp add: Second_def)
  from main_push_timer[OF p3(5) c, of e] obtain pre evs where
    n: "newEvents p3 (main_push e p3) =
           [Slog LevelInfo ''sending SSH public key'', Call ''sendSSHPublicKey''] @ pre @
           [Slog LevelInfo ''SSH public key sent''] @ bootstrapOf (cfg p3) @ evs @
           [Slog LevelInfo ''session completed''] @ map (Removed Deferred) (deferred p3)"
      and pre: "list_all (\<lambda>ev. pushEvent ev \<or> isBackground ev) pre"
      and evs: "list_all (\<lambda>ev. helperEvent ev \<or> isBackground ev) evs"
      and bg: "filter isBackground (pre @ evs) =
           (if ?D \<le> clock (snd (main_push e p3)) then [Removed Background ?lock] else [])"
    by blast
  have gone: "fs (snd (main_push e p3)) ?lock = None"
    using p3(4) tok by (rule main_push_releases)
  have new: "newEvents p (main_lock e p) = ?acq @ newEvents p3 (main_push e p3)"
    by (rule newEvents_via[where F = "main_push e", OF p3(1) p3(6) main_push_ext])
  have dp: "filter isDeferred pre = []" using pre by (rule filter_none) (auto simp: kinds_deferred)
  have de: "filter isDeferred evs = []" using evs by (rule filter_none) (auto simp: kinds_deferred)
  have bg': "filter isBackground pre @ filter isBackground evs =
           (if ?D \<le> clock (snd (main_lock e p)) then [Removed Background ?lock] else [])"
    using bg p3(1) by simp
  have 1: "last (newEvents p (main_lock e p)) = Removed Deferred ?lock"
    unfolding new n p3(4) by simp
  have 2: "last (butlast (newEvents p (main_lock e p))) = Slog LevelInfo ''session completed''"
    unfolding new n p3(4) by (simp add: butlast_append)
  have 3: "filter isDeferred (newEvents p (main_lock e p)) = [Removed Deferred ?lock]"
    unfolding new n p3(4) using dp de by (simp add: bootstrapOf_def)
  have 4: "filter isBackground (newEvents p (main_lock e p)) =
           (if ?D \<le> clock (snd (main_lock e p)) then [Removed Background ?lock] else [])"
    unfolding new n p3(4) using bg' by (simp add: bootstrapOf_def)
  have 5: "fs (snd (main_lock e p)) ?lock = None"
    using gone p3(1) by simp
  show ?thesis
    using 1 2 3 4 5 by (simp add: Remove_gone Remove_absent)
qed


lemma quiet_run_trace:
  "trace (snd (main quietEnv homeFiles)) =
     [Call ''loadCache'', Slog LevelInfo ''loaded cache: '',
      Slog LevelInfo ''instance details not found in cache, fetching from AWS'',
      Call ''getInstanceDetails'',
      DescribeInstancesReq [(''tag:Name'', [''web-1'']), (''instance-state-name'', [''running''])],
      Slog LevelInfo ''saving instance details to cache'',
      Call ''saveCache'',
      Slog LevelInfo ''checking lock file /home/u/.ssm-ssh-connect/prod-web-1-ubuntu.lock'',
      Created ''/home/u/.ssm-ssh-connect/prod-web-1-ubuntu.lock'',
      Slog LevelInfo ''sending SSH public key'', Call ''sendSSHPublicKey'',
      SendSSHPublicKeyReq ''i-0abc'' ''ubuntu'' (Raw ''ssh-rsa AAAA'') ''us-east-1a'',
      Slog LevelInfo ''SSH public key sent'',
      Slog LevelInfo ''starting SSM session'',
      Call ''startSSMSessionWithPlugin'',
      StartSessionReq ''i-0abc'' ''AWS-StartSSHSession'' [(''portNumber'', [''22''])],
      Slog LevelInfo ''session-manager-plugin start'',
      Run ''/usr/local/bin/session-manager-plugin''
        [Encoded (JObject [(''SessionId'', JString ''s-1''), (''StreamUrl'', JString ''wss://stream''),
                           (''TokenValue'', JString ''tok'')]),
         Raw ''us-east-1'', Raw ''StartSession'', Raw ''prod'',
         Encoded (JObject [(''Target'', JString ''i-0abc''),
                           (''DocumentName'', JString ''AWS-StartSSHSession''),
                           (''Parameters'', JObject [(''portNumber'', JArray [JString ''22''])])]),
         Raw ''https://ssm.us-east-1.amazonaws.com''],
      Slog LevelInfo ''session-manager-plugin end'',
      Slog LevelInfo ''session completed'',
      Removed Deferred ''/home/u/.ssm-ssh-connect/prod-web-1-ubuntu.lock'']"
  by (simp add: run_defs quietEnv_def homeFiles_def regular_def oneInstance_def cong: let_weak_cong)

text \<open>
  Claim C3 as stated has the explicit release when the key push completes, and the
  background release whether or not the explicit one has fired. In the run on an empty
  cache and no lock, with a session of ten seconds, the key push is complete and the
  lock is not released when the bootstrap is called; the release is the last event of
  the run; and the process has ended before the goroutine wakes, so that no background
  release happens.
\<close>

theorem release_waits_for_the_end_of_the_run:
  "Created web1_lock \<in> set (trace (snd (main quietEnv homeFiles))) \<and>
   Slog LevelInfo ''SSH public key sent'' \<in>
     set (eventsBefore (Call ''startSSMSessionWithPlugin'') (trace (snd (main quietEnv homeFiles)))) \<and>
   Removed Deferred web1_lock \<notin>
     set (eventsBefore (Call ''startSSMSessionWithPlugin'') (trace (snd (main quietEnv homeFiles)))) \<and>
   Removed Background web1_lock \<notin> set (trace (snd (main quietEnv homeFiles))) \<and>
   last (trace (snd (main quietEnv homeFiles))) = Removed Deferred web1_lock"
  by (simp add: quiet_run_trace eventsBefore_def web1_lock_def)

lemma slow_run_clock:
  "clock (snd (main_lock slowEnv (atLock homeFiles))) = 160000000000"
  by (simp add: run_defs slowEnv_def quietEnv_def atLock_def web1_def homeFiles_def regular_def
      cong: let_weak_cong)

theorem lock_release_paths_witness:
  "deferred (atLock homeFiles) = [] \<and>
   Created (lockFileName (cfg (atLock homeFiles))) \<in>
     set (newEvents (atLock homeFiles) (main_lock slowEnv (atLock homeFiles))) \<and>
   Map.empty web1_lock = None \<and>
   last (newEvents (atLock homeFiles) (main_lock slowEnv (atLock homeFiles))) =
     Removed Deferred (lockFileName (cfg (atLock homeFiles))) \<and>
   filter isBackground (newEvents (atLock homeFiles) (main_lock slowEnv (atLock homeFiles))) =
     [Removed Background (lockFileName (cfg (atLock homeFiles)))] \<and>
   fs (snd (main_lock slowEnv (atLock homeFiles))) (lockFileName (cfg (atLock homeFiles))) = None \<and>
   Remove Map.empty web1_lock = Map.empty"
proof -
  have h1: "deferred (atLock homeFiles) = []" by (simp add: atLock_def)
  have "fst (main_acquire (atLock homeFiles))"
    by (simp add: main_acquire_def Let_def isStale_def Stat_def OpenFile_EXCL_CREATE_def atLock_def
        web1_paths web1_dir)
  from main_lock_new_acquired[OF this, of slowEnv]
  have h2: "Created (lockFileName (cfg (atLock homeFiles))) \<in>
     set (newEvents (atLock homeFiles) (main_lock slowEnv (atLock homeFiles)))"
    by auto
  have ck: "clock (atLock homeFiles) + 50 * Second \<le> clock (snd (main_lock slowEnv (atLock homeFiles)))"
    by (simp add: slow_run_clock) (simp add: atLock_def Second_def)
  show ?thesis
    using h1 h2 ck lock_release_paths [OF h1 h2, of Map.empty web1_lock]
    by simp
qed








text \<open>
  The processes of the schedule are those of \<^verbatim>\<open>main\<close>: one process alone reaches
  \<open>Holding\<close> exactly when its acquisition succeeds, with the file system of the
  acquisition, and the release of a holder leaves the file system as the end of its
  run does.
\<close>

lemma attempt_alone:
  "race (lockFileName (cfg p))
     (if isStale (clock p) (fs p) (lockFileName (cfg p))
      then [(ProcA, clock p), (ProcA, clock p), (ProcA, clock p)]
      else [(ProcA, clock p), (ProcA, clock p)])
     (fs p, AtStat, b) =
     (fs (snd (main_acquire p)), if fst (main_acquire p) then Holding (clock p) else AlreadyHeld, b)"
  by (auto simp: lock_step_def main_acquire_def Let_def split: option.splits)

lemma steps_timer:
  assumes "steps P q q'" and "timer q = Some (D, L)"
  shows "(fs q' = fs q \<and> timer q' = timer q) \<or> (fs q' = Remove (fs q) L \<and> timer q' = None)"
  using assms
proof (induction rule: steps.induct)
  case refl
  then show ?case by simp
next
  case (emit q' ev)
  then show ?case by simp
next
  case (block q' d)
  then have "(fs q' = fs q \<and> timer q' = Some (D, L)) \<or> (fs q' = Remove (fs q) L \<and> timer q' = None)"
    by simp
  then show ?case
    using block.prems by (auto simp: block_def Let_def split: option.splits)
qed

lemma release_alone:
  assumes "fst (main_acquire p)" and "deferred p = []"
  shows "fs (snd (main_lock e p)) =
           fst (lock_step (lockFileName (cfg p)) now (fs (snd (main_acquire p)), Holding (clock p)))"
proof -
  let ?lock = "lockFileName (cfg p)"
  let ?p3 = "(snd (main_acquire p))\<lparr>deferred := ?lock # deferred p,
                                       timer := Some (clock p + 50 * Second, ?lock)\<rparr>"
  have m: "main_lock e p = main_push e ?p3" by (rule main_lock_acquired[OF assms(1)])
  from main_push_shape[of e ?p3] obtain q' where
    q': "main_push e ?p3 = main_return q'" "steps pushOrSession ?p3 q'"
    by blast
  have d: "deferred q' = [?lock]" using steps_frame[OF q'(2)] assms(2) by simp
  have "fs q' = fs ?p3 \<or> fs q' = Remove (fs ?p3) ?lock"
    using steps_timer[OF q'(2), of "clock p + 50 * Second" ?lock] by auto
  then have "Remove (fs q') ?lock = Remove (fs (snd (main_acquire p))) ?lock"
    by (auto simp: Remove_gone)
  then have "fs (snd (main_lock e p)) = Remove (fs (snd (main_acquire p))) ?lock"
    unfolding m q'(1) using d by (simp add: main_return_sel)
  then show ?thesis by (simp add: lock_step_def)
qed

end
